theory Spec2Isabelle
  imports Complex_Main
begin

section \<open>Data model\<close>

text \<open>
  The order processor of \<^verbatim>\<open>services/orderProcessor.js\<close> works on JSON rows of the
  tables \<^verbatim>\<open>orders\<close>, \<^verbatim>\<open>order_items\<close> and \<^verbatim>\<open>profit_transfers\<close>.  A row is a record
  with the fields the processor reads or writes.  A column that may hold
  \<^verbatim>\<open>null\<close>/\<^verbatim>\<open>undefined\<close> is an \<open>option\<close>; the supplier of an item, on which a method
  is called, keeps \<^verbatim>\<open>undefined\<close> and \<^verbatim>\<open>null\<close> apart.  Timestamps are milliseconds.

  Numbers.  The program computes in IEEE doubles; the model computes in exact reals
  (\<^verbatim>\<open>parseFloat\<close> of a well-formed amount is the amount itself; \<^verbatim>\<open>NaN\<close> and the
  infinities are outside the model).  The two agree where every product and sum is a
  double, as for all sample data below, and differ by the rounding of doubles elsewhere:
  for one item of total price 0.1 and margin 0.1 the program returns
  0.010000000000000002 and the model 1/100, and for a profit of 1.005 the program pays
  out 100 cents and the model 101.  Signs and comparisons with 0 are the same in both.
\<close>

datatype 'a nullable = Undefined | Null | Value 'a

datatype error =
    Error string
  | TypeError string
  | RangeError string
  | StoreError string
  | ProcessorError string

fun message :: "error \<Rightarrow> string" where
  "message (Error m) = m"
| "message (TypeError m) = m"
| "message (RangeError m) = m"
| "message (StoreError m) = m"
| "message (ProcessorError m) = m"

record order_item =
  item_id :: string
  product_id :: string
  quantity :: int
  unit_price :: real
  total_price :: real
  profit_margin :: "real option"
  supplier :: "string nullable"
  shipping_address :: "string option"
  supplier_order_id :: "string option"
  supplier_status :: string

record order =
  order_id :: string
  order_number :: string
  total_amount :: real
  profit_amount :: real
  status :: string
  payment_status :: "string option"
  payment_method :: "string option"
  stripe_payment_id :: "string option"
  error_message :: "string option"
  created_at :: nat
  updated_at :: nat
  order_items :: "order_item list"

record supplier_order =
  so_id :: string
  so_supplier :: "string nullable"
  so_items :: "(string \<times> int \<times> real) list"
  so_shipping_address :: "string option"
  so_total_amount :: real
  so_status :: string
  estimated_delivery :: nat
  tracking_number :: "string option"

record profit_transfer =
  pt_order_id :: string
  amount :: real
  pt_method :: string
  transfer_id :: string
  pt_status :: string
  pt_created_at :: nat
  pt_notes :: "string option"

section \<open>The world: store, processor, clock and console\<close>

text \<open>
  Every store call has one of three outcomes, chosen by the environment: it is applied,
  it is rejected (the client resolves with an \<^verbatim>\<open>error\<close> field and nothing changes), or
  the awaited call throws.
\<close>

datatype fault = Applied | Rejected error | Thrown error

text \<open>
  The console lines of the source and the calls to the payment processor are kept in a
  trace.  \<open>Dispatched\<close> marks the point where \<^verbatim>\<open>createSupplierOrder\<close> has built the
  supplier order of an item (where the source prints its line), with the item's id.
\<close>

datatype event =
    LogProcessing nat
  | LogOrderError string error
  | LogBatchCompleted
  | LogBatchError error
  | LogOrderStart string
  | LogOrderDone string
  | LogPaymentProcessed string
  | LogPaymentFailed string error
  | LogSupplierError string error
  | LogSupplierOrderCreated string int
  | Dispatched string
  | LogNoProfit
  | LogTransferInitiated real string
  | LogTransferFailed string error
  | LogPayoutCreated string
  | LogStripeTransferError error
  | CallRetrieve "string option"
  | CallPayoutCreate int string

text \<open>
  \<open>db_ready\<close>: the module variable \<^verbatim>\<open>supabase\<close> of the database module is set.
  \<open>stripe\<close>: the constant \<^verbatim>\<open>stripe\<close> is not \<^verbatim>\<open>null\<close> (a secret key is configured).
  \<open>tick\<close> counts the store calls made so far; \<open>store_fault\<close>, \<open>date_now\<close> and
  \<open>generated_id\<close> (the outcome of \<^verbatim>\<open>Date.now\<close> and \<^verbatim>\<open>Math.random\<close> in
  \<^verbatim>\<open>generateSupplierOrderId\<close>) are read at the current tick.
  \<open>paymentIntents_retrieve\<close> and \<open>payouts_create\<close> are the processor's answers.
  \<open>setDate_plus t days\<close> is the time that \<^verbatim>\<open>setDate(getDate() + days)\<close> gives a date of
  time \<open>t\<close>: the same wall-clock time \<open>days\<close> calendar days later in the host's time
  zone.
\<close>

record world =
  db_ready :: bool
  stripe :: bool
  orders :: "order list"
  profit_transfers :: "profit_transfer list"
  tick :: nat
  store_fault :: "nat \<Rightarrow> fault"
  date_now :: "nat \<Rightarrow> nat"
  generated_id :: "nat \<Rightarrow> string"
  paymentIntents_retrieve :: "string option \<Rightarrow> error + string"
  payouts_create :: "int \<Rightarrow> string \<Rightarrow> error + string"
  setDate_plus :: "nat \<Rightarrow> nat \<Rightarrow> nat"
  trace :: "event list"

type_synonym 'a io = "world \<Rightarrow> (error + 'a) \<times> world"

definition ret :: "'a \<Rightarrow> 'a io" where
  "ret x w = (Inr x, w)"

definition throw :: "error \<Rightarrow> 'a io" where
  "throw e w = (Inl e, w)"

definition bind :: "'a io \<Rightarrow> ('a \<Rightarrow> 'b io) \<Rightarrow> 'b io" where
  "bind m f w = (case m w of (Inl e, w1) \<Rightarrow> (Inl e, w1) | (Inr x, w1) \<Rightarrow> f x w1)"

definition try_catch :: "'a io \<Rightarrow> (error \<Rightarrow> 'a io) \<Rightarrow> 'a io" where
  "try_catch m h w = (case m w of (Inl e, w1) \<Rightarrow> h e w1 | (Inr x, w1) \<Rightarrow> (Inr x, w1))"

definition console_log :: "event \<Rightarrow> unit io" where
  "console_log ev w = (Inr (), w\<lparr>trace := trace w @ [ev]\<rparr>)"

definition now :: "nat io" where
  "now w = (Inr (date_now w (tick w)), w)"

definition Date_setDate_plus :: "nat \<Rightarrow> nat \<Rightarrow> nat io" where
  "Date_setDate_plus t days w = (Inr (setDate_plus w t days), w)"

definition getDatabase :: "unit io" where
  "getDatabase w =
     (if db_ready w then (Inr (), w)
      else (Inl (Error ''Database not initialized. Call initializeDatabase() first.''), w))"

subsection \<open>Store calls\<close>

definition store_write :: "(world \<Rightarrow> world) \<Rightarrow> unit io" where
  "store_write change w =
     (case store_fault w (tick w) of
        Applied \<Rightarrow> (Inr (), (change w)\<lparr>tick := Suc (tick w)\<rparr>)
      | Rejected e \<Rightarrow> (Inr (), w\<lparr>tick := Suc (tick w)\<rparr>)
      | Thrown e \<Rightarrow> (Inl e, w\<lparr>tick := Suc (tick w)\<rparr>))"

definition update_orders :: "string \<Rightarrow> (order \<Rightarrow> order) \<Rightarrow> unit io" where
  "update_orders oid f =
     store_write (\<lambda>w. w\<lparr>orders := map (\<lambda>r. if order_id r = oid then f r else r) (orders w)\<rparr>)"

definition update_order_items :: "string \<Rightarrow> (order_item \<Rightarrow> order_item) \<Rightarrow> unit io" where
  "update_order_items iid f =
     store_write (\<lambda>w. w\<lparr>orders :=
       map (\<lambda>r. r\<lparr>order_items := map (\<lambda>i. if item_id i = iid then f i else i) (order_items r)\<rparr>)
         (orders w)\<rparr>)"

definition insert_profit_transfers :: "profit_transfer \<Rightarrow> unit io" where
  "insert_profit_transfers rec =
     store_write (\<lambda>w. w\<lparr>profit_transfers := profit_transfers w @ [rec]\<rparr>)"

text \<open>
  \<^verbatim>\<open>from('orders').select('*, order_items (*)').eq('status', 'pending')
  .order('created_at', {ascending: true}).limit(10)\<close>, resolving to \<^verbatim>\<open>{data, error}\<close>.
\<close>

definition select_pending :: "(order list option \<times> error option) io" where
  "select_pending w =
     (case store_fault w (tick w) of
        Applied \<Rightarrow>
          (Inr (Some (take 10 (sort_key created_at
                  (filter (\<lambda>r. status r = ''pending'') (orders w)))), None),
           w\<lparr>tick := Suc (tick w)\<rparr>)
      | Rejected e \<Rightarrow> (Inr (None, Some e), w\<lparr>tick := Suc (tick w)\<rparr>)
      | Thrown e \<Rightarrow> (Inl e, w\<lparr>tick := Suc (tick w)\<rparr>))"

subsection \<open>Processor calls\<close>

definition stripe_paymentIntents_retrieve :: "string option \<Rightarrow> string io" where
  "stripe_paymentIntents_retrieve pid w =
     (paymentIntents_retrieve w pid, w\<lparr>trace := trace w @ [CallRetrieve pid]\<rparr>)"

definition stripe_payouts_create :: "int \<Rightarrow> string \<Rightarrow> string io" where
  "stripe_payouts_create cents oid w =
     (payouts_create w cents oid, w\<lparr>trace := trace w @ [CallPayoutCreate cents oid]\<rparr>)"

section \<open>The order processor\<close>

subsection \<open>processPayment\<close>

definition processPayment :: "order \<Rightarrow> unit io" where
  "processPayment order =
     bind getDatabase (\<lambda>_.
     try_catch
       (bind (\<lambda>w.
          (if payment_method order = Some ''stripe'' \<and> stripe w then
             bind (stripe_paymentIntents_retrieve (stripe_payment_id order)) (\<lambda>paymentIntent_status.
               if paymentIntent_status = ''succeeded'' then
                 update_orders (order_id order) (\<lambda>r. r\<lparr>payment_status := Some ''paid''\<rparr>)
               else throw (Error (''Payment not completed: '' @ paymentIntent_status)))
           else if payment_method order = Some ''paypal'' then
             update_orders (order_id order) (\<lambda>r. r\<lparr>payment_status := Some ''paid''\<rparr>)
           else throw (Error ''Unsupported payment method'')) w)
        (\<lambda>_. console_log (LogPaymentProcessed (order_number order))))
       (\<lambda>error. bind (console_log (LogPaymentFailed (order_number order) error)) (\<lambda>_. throw error)))"

subsection \<open>calculateProfit\<close>

text \<open>\<^verbatim>\<open>item.profit_margin || 0.25\<close>: \<^verbatim>\<open>null\<close>, \<^verbatim>\<open>undefined\<close> and \<^verbatim>\<open>0\<close> are falsy.\<close>

definition margin_or_default :: "real option \<Rightarrow> real" where
  "margin_or_default m = (case m of None \<Rightarrow> 0.25 | Some x \<Rightarrow> if x = 0 then 0.25 else x)"

definition calculateProfit :: "order \<Rightarrow> real" where
  "calculateProfit order =
     (let totalAmount = total_amount order;
          profitMargin = 0.25
      in if length (order_items order) > 0 then
           foldl (\<lambda>sum item. sum + total_price item * margin_or_default (profit_margin item))
             0 (order_items order)
         else totalAmount * profitMargin)"

subsection \<open>Supplier orders\<close>

definition generateSupplierOrderId :: "string io" where
  "generateSupplierOrderId w = (Inr (generated_id w (tick w)), w)"

definition toLowerCase :: "string \<Rightarrow> string" where
  "toLowerCase s =
     map (\<lambda>c. let n = (of_char c :: nat) in if 65 \<le> n \<and> n \<le> 90 then char_of (n + 32) else c) s"

definition deliveryDays :: "(string \<times> nat) list" where
  "deliveryDays = [(''amazon'', 2), (''aliexpress'', 7), (''mercadolibre'', 3), (''ebay'', 5)]"

text \<open>
  \<^verbatim>\<open>deliveryDays[supplier.toLowerCase()] || 5\<close>.  A supplier that is \<^verbatim>\<open>undefined\<close> or
  \<^verbatim>\<open>null\<close> makes \<^verbatim>\<open>toLowerCase\<close> throw a TypeError.  The keys \<^verbatim>\<open>constructor\<close> and \<^verbatim>\<open>__proto__\<close> are
  the lower-case names that an object literal inherits; they yield an object, the date
  becomes invalid and \<^verbatim>\<open>toISOString\<close> throws a RangeError.
\<close>

definition getEstimatedDeliveryDate :: "string nullable \<Rightarrow> nat io" where
  "getEstimatedDeliveryDate supplier_name =
     (case supplier_name of
        Undefined \<Rightarrow>
          throw (TypeError ''Cannot read properties of undefined (reading 'toLowerCase')'')
      | Null \<Rightarrow>
          throw (TypeError ''Cannot read properties of null (reading 'toLowerCase')'')
      | Value s \<Rightarrow>
          (let key = toLowerCase s in
           if key = ''constructor'' \<or> key = ''__proto__'' then
             throw (RangeError ''Invalid time value'')
           else
             (let days = (case map_of deliveryDays key of Some d \<Rightarrow> d | None \<Rightarrow> 5)
              in bind now (\<lambda>t. Date_setDate_plus t days))))"

definition createSupplierOrder :: "order_item \<Rightarrow> supplier_order io" where
  "createSupplierOrder orderItem =
     bind generateSupplierOrderId (\<lambda>new_id.
     bind (getEstimatedDeliveryDate (supplier orderItem)) (\<lambda>eta.
     let supplierOrder =
           \<lparr>so_id = new_id,
            so_supplier = supplier orderItem,
            so_items = [(product_id orderItem, quantity orderItem, unit_price orderItem)],
            so_shipping_address = shipping_address orderItem,
            so_total_amount = total_price orderItem,
            so_status = ''ordered'',
            estimated_delivery = eta,
            tracking_number = None\<rparr>
     in
     bind (console_log (LogSupplierOrderCreated (so_id supplierOrder) (quantity orderItem))) (\<lambda>_.
     bind (console_log (Dispatched (item_id orderItem))) (\<lambda>_.
     ret supplierOrder))))"

fun processSupplierOrders_loop ::
  "order_item list \<Rightarrow> supplier_order list \<Rightarrow> supplier_order list io" where
  "processSupplierOrders_loop [] supplierOrders = ret supplierOrders"
| "processSupplierOrders_loop (item # rest) supplierOrders =
     bind
       (try_catch
          (bind (createSupplierOrder item) (\<lambda>supplierOrder.
           bind getDatabase (\<lambda>_.
           bind (update_order_items (item_id item)
                   (\<lambda>i. i\<lparr>supplier_order_id := Some (so_id supplierOrder),
                           supplier_status := ''ordered''\<rparr>)) (\<lambda>_.
           ret supplierOrder))))
          (\<lambda>error. bind (console_log (LogSupplierError (item_id item) error)) (\<lambda>_. throw error)))
       (\<lambda>supplierOrder. processSupplierOrders_loop rest (supplierOrders @ [supplierOrder]))"

definition processSupplierOrders :: "order_item list \<Rightarrow> supplier_order list io" where
  "processSupplierOrders orderItems = processSupplierOrders_loop orderItems []"

subsection \<open>Profit transfer\<close>

text \<open>
  \<^verbatim>\<open>Math.round\<close> rounds to the nearest integer, halves upwards; it is applied to the
  exact product where the program rounds the double product.
\<close>

definition Math_round :: "real \<Rightarrow> int" where
  "Math_round x = \<lfloor>x + 1 / 2\<rfloor>"

definition transferToBankAccount :: "order \<Rightarrow> real \<Rightarrow> unit io" where
  "transferToBankAccount order profitAmount =
     try_catch
       (bind (stripe_payouts_create (Math_round (profitAmount * 100)) (order_id order)) (\<lambda>payout_id.
        bind (console_log (LogPayoutCreated payout_id)) (\<lambda>_.
        bind getDatabase (\<lambda>_.
        bind now (\<lambda>t.
        insert_profit_transfers
          \<lparr>pt_order_id = order_id order,
           amount = profitAmount,
           pt_method = ''stripe'',
           transfer_id = payout_id,
           pt_status = ''pending'',
           pt_created_at = t,
           pt_notes = None\<rparr>)))))
       (\<lambda>error. bind (console_log (LogStripeTransferError error)) (\<lambda>_. throw error))"

definition markPayPalTransfer :: "order \<Rightarrow> real \<Rightarrow> unit io" where
  "markPayPalTransfer order profitAmount =
     bind getDatabase (\<lambda>_.
     bind now (\<lambda>t.
     insert_profit_transfers
       \<lparr>pt_order_id = order_id order,
        amount = profitAmount,
        pt_method = ''paypal'',
        transfer_id = ''PP-'' @ order_number order,
        pt_status = ''pending_manual'',
        pt_created_at = t,
        pt_notes = Some ''Manual PayPal transfer required''\<rparr>))"

definition handleProfitTransfer :: "order \<Rightarrow> real \<Rightarrow> unit io" where
  "handleProfitTransfer order profitAmount =
     try_catch
       (if profitAmount \<le> 0 then console_log LogNoProfit
        else
          bind (\<lambda>w.
            (if payment_method order = Some ''stripe'' \<and> stripe w then
               transferToBankAccount order profitAmount
             else if payment_method order = Some ''paypal'' then
               markPayPalTransfer order profitAmount
             else ret ()) w)
          (\<lambda>_. console_log (LogTransferInitiated profitAmount (order_number order))))
       (\<lambda>error. console_log (LogTransferFailed (order_number order) error))"

subsection \<open>processSingleOrder and processOrders\<close>

definition processSingleOrder :: "order \<Rightarrow> unit io" where
  "processSingleOrder order =
     bind getDatabase (\<lambda>_.
     bind (console_log (LogOrderStart (order_number order))) (\<lambda>_.
     bind (if payment_status order = Some ''pending'' then processPayment order else ret ()) (\<lambda>_.
     let profitAmount = calculateProfit order in
     bind now (\<lambda>t1.
     bind (update_orders (order_id order)
             (\<lambda>r. r\<lparr>profit_amount := profitAmount, updated_at := t1\<rparr>)) (\<lambda>_.
     bind (processSupplierOrders (order_items order)) (\<lambda>supplierOrders.
     bind (handleProfitTransfer order profitAmount) (\<lambda>_.
     bind now (\<lambda>t2.
     bind (update_orders (order_id order)
             (\<lambda>r. r\<lparr>status := ''completed'', updated_at := t2\<rparr>)) (\<lambda>_.
     console_log (LogOrderDone (order_number order)))))))))))"

text \<open>The body of the \<^verbatim>\<open>for\<close> loop of \<^verbatim>\<open>processOrders\<close>: one order, with its handler.\<close>

definition processOrders_step :: "order \<Rightarrow> unit io" where
  "processOrders_step order =
     try_catch (processSingleOrder order)
       (\<lambda>error.
          bind (console_log (LogOrderError (order_id order) error)) (\<lambda>_.
          bind now (\<lambda>t.
          update_orders (order_id order)
            (\<lambda>r. r\<lparr>status := ''failed'',
                    error_message := Some (message error),
                    updated_at := t\<rparr>))))"

fun processOrders_loop :: "order list \<Rightarrow> unit io" where
  "processOrders_loop [] = ret ()"
| "processOrders_loop (order # rest) =
     bind (processOrders_step order) (\<lambda>_. processOrders_loop rest)"

definition processOrders_try :: "unit io" where
  "processOrders_try =
     bind getDatabase (\<lambda>_.
     bind select_pending (\<lambda>(pendingOrders, error).
     case error of
       Some e \<Rightarrow> throw e
     | None \<Rightarrow>
         (case pendingOrders of
            None \<Rightarrow> throw (TypeError ''Cannot read properties of null (reading length)'')
          | Some pending \<Rightarrow>
              bind (console_log (LogProcessing (length pending))) (\<lambda>_.
              bind (processOrders_loop pending) (\<lambda>_.
              console_log LogBatchCompleted)))))"

definition processOrders :: "unit io" where
  "processOrders = try_catch processOrders_try (\<lambda>error. console_log (LogBatchError error))"

section \<open>Observations on a run\<close>

text \<open>
  The batch that \<^verbatim>\<open>processOrders\<close> reads from a store that answers: the pending orders,
  oldest first, at most 10 (the data of \<open>select_pending\<close>).
\<close>

definition pending_batch :: "world \<Rightarrow> order list" where
  "pending_batch w =
     take 10 (sort_key created_at (filter (\<lambda>r. status r = ''pending'') (orders w)))"

text \<open>
  What a trace shows: the payment references the processor was asked about, the items for
  which a supplier order was created, the events of the payment phase (the processor
  call and the two console lines of \<^verbatim>\<open>processPayment\<close>, one of which ends every run of
  its \<^verbatim>\<open>try\<close> block), and the number of such runs.
\<close>

fun retrieve_calls :: "event list \<Rightarrow> string option list" where
  "retrieve_calls [] = []"
| "retrieve_calls (CallRetrieve pid # evs) = pid # retrieve_calls evs"
| "retrieve_calls (_ # evs) = retrieve_calls evs"

fun dispatched_ids :: "event list \<Rightarrow> string list" where
  "dispatched_ids [] = []"
| "dispatched_ids (Dispatched iid # evs) = iid # dispatched_ids evs"
| "dispatched_ids (_ # evs) = dispatched_ids evs"

fun is_payment_event :: "event \<Rightarrow> bool" where
  "is_payment_event (CallRetrieve _) = True"
| "is_payment_event (LogPaymentProcessed _) = True"
| "is_payment_event (LogPaymentFailed _ _) = True"
| "is_payment_event _ = False"

definition payment_events :: "event list \<Rightarrow> event list" where
  "payment_events evs = filter is_payment_event evs"

fun is_verifier_outcome :: "event \<Rightarrow> bool" where
  "is_verifier_outcome (LogPaymentProcessed _) = True"
| "is_verifier_outcome (LogPaymentFailed _ _) = True"
| "is_verifier_outcome _ = False"

definition verifier_runs :: "event list \<Rightarrow> nat" where
  "verifier_runs evs = length (filter is_verifier_outcome (payment_events evs))"

text \<open>
  \<open>extends_quietly w w'\<close>: the console and call trace of \<open>w'\<close> is that of \<open>w\<close> followed
  by events none of which belongs to the payment verifier.
\<close>

definition extends_quietly :: "world \<Rightarrow> world \<Rightarrow> bool" where
  "extends_quietly w w' \<longleftrightarrow>
     (\<exists>rest. trace w' = trace w @ rest \<and> payment_events rest = [])"


section \<open>Definitions for the proofs\<close>

text \<open>
  Steps 2 to 5 of \<^verbatim>\<open>processSingleOrder\<close> (profit, supplier orders, profit transfer,
  completion), named so that the payment step can be split off.
\<close>

definition processSingleOrder_steps_2_5 :: "order \<Rightarrow> unit io" where
  "processSingleOrder_steps_2_5 order =
     (let profitAmount = calculateProfit order in
      bind now (\<lambda>t1.
      bind (update_orders (order_id order)
              (\<lambda>r. r\<lparr>profit_amount := profitAmount, updated_at := t1\<rparr>)) (\<lambda>_.
      bind (processSupplierOrders (order_items order)) (\<lambda>supplierOrders.
      bind (handleProfitTransfer order profitAmount) (\<lambda>_.
      bind now (\<lambda>t2.
      bind (update_orders (order_id order)
              (\<lambda>r. r\<lparr>status := ''completed'', updated_at := t2\<rparr>)) (\<lambda>_.
      console_log (LogOrderDone (order_number order)))))))))"

text \<open>
  \<open>steps R m\<close>: every run of \<open>m\<close> relates the world before to the world after by \<open>R\<close>.
  \<open>admits R EV Q\<close>: \<open>R\<close> is a preorder that allows any tick, the console events in \<open>EV\<close>,
  a change of the orders table row by row within \<open>Q\<close>, and any insert of a transfer.
  \<open>row_updates_ok Q order\<close>: \<open>Q\<close> allows the row updates the processor makes for
  \<open>order\<close>.  \<open>frame\<close> relates worlds with the same environment (database handle,
  Stripe configuration and the oracles).
\<close>

definition frame :: "world \<Rightarrow> world \<Rightarrow> bool" where
  "frame w w' \<longleftrightarrow>
     db_ready w' = db_ready w \<and> stripe w' = stripe w \<and> store_fault w' = store_fault w \<and>
     date_now w' = date_now w \<and> generated_id w' = generated_id w \<and>
     paymentIntents_retrieve w' = paymentIntents_retrieve w \<and>
     payouts_create w' = payouts_create w \<and> setDate_plus w' = setDate_plus w"

definition steps :: "(world \<Rightarrow> world \<Rightarrow> bool) \<Rightarrow> 'a io \<Rightarrow> bool" where
  "steps R m \<longleftrightarrow> (\<forall>w. R w (snd (m w)))"

definition admits ::
  "(world \<Rightarrow> world \<Rightarrow> bool) \<Rightarrow> (event \<Rightarrow> bool) \<Rightarrow> (order \<Rightarrow> order \<Rightarrow> bool) \<Rightarrow> bool" where
  "admits R EV Q \<longleftrightarrow>
     (\<forall>w. R w w) \<and>
     (\<forall>w1 w2 w3. R w1 w2 \<longrightarrow> R w2 w3 \<longrightarrow> R w1 w3) \<and>
     (\<forall>w t. R w (w\<lparr>tick := t\<rparr>)) \<and>
     (\<forall>w ev. EV ev \<longrightarrow> R w (w\<lparr>trace := trace w @ [ev]\<rparr>)) \<and>
     (\<forall>w rows. list_all2 Q (orders w) rows \<longrightarrow> R w (w\<lparr>orders := rows\<rparr>)) \<and>
     (\<forall>w rec. R w (w\<lparr>profit_transfers := profit_transfers w @ [rec]\<rparr>))"

definition row_updates_ok :: "(order \<Rightarrow> order \<Rightarrow> bool) \<Rightarrow> order \<Rightarrow> bool" where
  "row_updates_ok Q order \<longleftrightarrow>
     (\<forall>r. Q r r) \<and>
     (\<forall>r its. Q r (r\<lparr>order_items := its\<rparr>)) \<and>
     (\<forall>r t m. order_id r = order_id order \<longrightarrow>
        Q r (r\<lparr>payment_status := Some ''paid''\<rparr>) \<and>
        Q r (r\<lparr>profit_amount := calculateProfit order, updated_at := t\<rparr>) \<and>
        Q r (r\<lparr>status := ''completed'', updated_at := t\<rparr>) \<and>
        Q r (r\<lparr>status := ''failed'', error_message := Some m, updated_at := t\<rparr>))"

text \<open>
  Row relations: rows keep their id and, outside a set of ids, their status and error
  message; a row's profit stays non-negative.
\<close>

definition keeps_others :: "string set \<Rightarrow> order \<Rightarrow> order \<Rightarrow> bool" where
  "keeps_others ids r r' \<longleftrightarrow>
     order_id r' = order_id r \<and>
     (order_id r \<notin> ids \<longrightarrow> status r' = status r \<and> error_message r' = error_message r)"



text \<open>
  The error with which the steps of \<^verbatim>\<open>processSingleOrder\<close> end when the database is
  initialised and the store applies every call, as functions of the order and the
  processor alone: the error of \<^verbatim>\<open>getEstimatedDeliveryDate\<close> for a supplier name, the
  first such error in an item list, the error of \<^verbatim>\<open>processPayment\<close>, and the error of the
  whole order.  The lemmas below relate them to the processor's functions.
\<close>

definition supplier_error :: "string nullable \<Rightarrow> error option" where
  "supplier_error s =
     (case s of
        Undefined \<Rightarrow>
          Some (TypeError ''Cannot read properties of undefined (reading 'toLowerCase')'')
      | Null \<Rightarrow>
          Some (TypeError ''Cannot read properties of null (reading 'toLowerCase')'')
      | Value n \<Rightarrow>
          if toLowerCase n = ''constructor'' \<or> toLowerCase n = ''__proto__''
          then Some (RangeError ''Invalid time value'') else None)"

fun dispatch_error :: "order_item list \<Rightarrow> error option" where
  "dispatch_error [] = None"
| "dispatch_error (item # rest) =
     (case supplier_error (supplier item) of Some e \<Rightarrow> Some e | None \<Rightarrow> dispatch_error rest)"

definition payment_error ::
  "bool \<Rightarrow> (string option \<Rightarrow> error + string) \<Rightarrow> order \<Rightarrow> error option" where
  "payment_error configured retrieve order =
     (if payment_method order = Some ''stripe'' \<and> configured then
        (case retrieve (stripe_payment_id order) of
           Inl e \<Rightarrow> Some e
         | Inr st \<Rightarrow>
             if st = ''succeeded'' then None
             else Some (Error (''Payment not completed: '' @ st)))
      else if payment_method order = Some ''paypal'' then None
      else Some (Error ''Unsupported payment method''))"

definition order_error :: "world \<Rightarrow> order \<Rightarrow> error option" where
  "order_error w order =
     (case (if payment_status order = Some ''pending''
            then payment_error (stripe w) (paymentIntents_retrieve w) order else None) of
        Some e \<Rightarrow> Some e
      | None \<Rightarrow> dispatch_error (order_items order))"

section \<open>Sample data\<close>

text \<open>
  Orders, items and worlds on which the theorems below are instantiated.  In
  \<open>world_base\<close> the database is initialised, Stripe is configured, the store applies
  every call, the processor reports \<^verbatim>\<open>succeeded\<close> for the payment \<^verbatim>\<open>pi_ok\<close> only, and
  every payout call throws.
\<close>

definition item_a :: order_item where
  "item_a = \<lparr>item_id = ''i1'', product_id = ''p1'', quantity = 1, unit_price = 10,
     total_price = 10, profit_margin = None, supplier = Value ''Amazon'',
     shipping_address = Some ''Calle 1'', supplier_order_id = None,
     supplier_status = ''pending''\<rparr>"

definition item_b :: order_item where
  "item_b = \<lparr>item_id = ''i2'', product_id = ''p2'', quantity = 2, unit_price = 20,
     total_price = 40, profit_margin = None, supplier = Value ''ebay'',
     shipping_address = Some ''Calle 1'', supplier_order_id = None,
     supplier_status = ''pending''\<rparr>"

definition item_zero_margin :: order_item where
  "item_zero_margin = \<lparr>item_id = ''i3'', product_id = ''p3'', quantity = 1, unit_price = 100,
     total_price = 100, profit_margin = Some 0, supplier = Value ''ebay'',
     shipping_address = Some ''Calle 1'', supplier_order_id = None,
     supplier_status = ''pending''\<rparr>"

definition order_stripe :: order where
  "order_stripe = \<lparr>order_id = ''o1'', order_number = ''N1'', total_amount = 50,
     profit_amount = 0, status = ''pending'', payment_status = Some ''pending'',
     payment_method = Some ''stripe'', stripe_payment_id = Some ''pi_ok'',
     error_message = None, created_at = 5, updated_at = 5,
     order_items = [item_a, item_b]\<rparr>"

definition order_no_items :: order where
  "order_no_items = order_stripe\<lparr>order_id := ''o0'', order_number := ''N0'',
     total_amount := 10, order_items := []\<rparr>"

definition order_zero_margin :: order where
  "order_zero_margin = order_stripe\<lparr>order_id := ''o3'', order_number := ''N3'',
     total_amount := 100, order_items := [item_zero_margin]\<rparr>"

definition order_bank :: order where
  "order_bank = order_stripe\<lparr>order_id := ''o2'', order_number := ''N2'', created_at := 6,
     payment_method := Some ''bank_transfer'', stripe_payment_id := None\<rparr>"

definition order_paypal :: order where
  "order_paypal = order_stripe\<lparr>order_id := ''o4'', order_number := ''N4'', created_at := 7,
     payment_method := Some ''paypal'', stripe_payment_id := None\<rparr>"

definition world_base :: world where
  "world_base = \<lparr>db_ready = True, stripe = True, orders = [], profit_transfers = [], tick = 0,
     store_fault = (\<lambda>_. Applied), date_now = (\<lambda>n. 1000 + n), generated_id = (\<lambda>n. ''SO''),
     paymentIntents_retrieve =
       (\<lambda>pid. if pid = Some ''pi_ok'' then Inr ''succeeded'' else Inr ''requires_payment_method''),
     payouts_create = (\<lambda>cents oid. Inl (ProcessorError ''insufficient funds'')),
     setDate_plus = (\<lambda>t days. t + days * 86400000),
     trace = []\<rparr>"

definition world_batch :: world where
  "world_batch = world_base\<lparr>orders := [order_paypal, order_bank, order_stripe]\<rparr>"

definition order_unpaid :: order where
  "order_unpaid = order_stripe\<lparr>order_id := ''o5'', order_number := ''N5'',
     stripe_payment_id := Some ''pi_open''\<rparr>"

definition order_bank_paid :: order where
  "order_bank_paid = order_bank\<lparr>payment_status := Some ''paid'', order_items := [item_a]\<rparr>"




definition world_bank_paid :: world where
  "world_bank_paid = world_base\<lparr>orders := [order_bank_paid]\<rparr>"

definition order_payment_failed :: order where
  "order_payment_failed = order_no_items\<lparr>order_id := ''o7'', order_number := ''N7'',
     payment_status := Some ''failed''\<rparr>"

definition world_payment_failed :: world where
  "world_payment_failed = world_base\<lparr>orders := [order_payment_failed]\<rparr>"


text \<open>
  Three pending orders without items, oldest first: the second has an unsupported payment
  method.  The sixth store call of a run over them is the write that marks the second
  order failed; it throws in \<open>world_store_throws\<close> and is answered with an error result in
  \<open>world_store_rejects\<close>.  In \<open>world_mark_rejected\<close> the second order is alone and the
  write that marks it failed (the second store call) is answered with an error result.
\<close>

definition order_first :: order where
  "order_first = order_no_items\<lparr>order_id := ''a1'', order_number := ''A1'', created_at := 1,
     payment_method := Some ''paypal'', stripe_payment_id := None\<rparr>"

definition order_second :: order where
  "order_second = order_no_items\<lparr>order_id := ''a2'', order_number := ''A2'', created_at := 2,
     payment_method := Some ''bank_transfer'', stripe_payment_id := None\<rparr>"

definition order_third :: order where
  "order_third = order_no_items\<lparr>order_id := ''a3'', order_number := ''A3'', created_at := 3,
     payment_method := Some ''paypal'', stripe_payment_id := None\<rparr>"

definition world_store_throws :: world where
  "world_store_throws = world_base\<lparr>orders := [order_first, order_second, order_third],
     store_fault := (\<lambda>n. if n = 5 then Thrown (StoreError ''connection lost'') else Applied)\<rparr>"

definition world_store_rejects :: world where
  "world_store_rejects = world_base\<lparr>orders := [order_first, order_second, order_third],
     store_fault := (\<lambda>n. if n = 5 then Rejected (StoreError ''column not found'') else Applied)\<rparr>"

definition world_mark_rejected :: world where
  "world_mark_rejected = world_base\<lparr>orders := [order_second],
     store_fault := (\<lambda>n. if n = 1 then Rejected (StoreError ''column not found'') else Applied)\<rparr>"

section \<open>Lemmas\<close>

lemmas io_defs = ret_def throw_def bind_def try_catch_def console_log_def now_def getDatabase_def
  store_write_def update_orders_def update_order_items_def insert_profit_transfers_def
  stripe_paymentIntents_retrieve_def stripe_payouts_create_def

subsection \<open>Relations preserved by every run\<close>

lemma admits_refl: "admits R EV Q \<Longrightarrow> R w w"
  by (simp add: admits_def)

lemma admits_trans: "admits R EV Q \<Longrightarrow> R w1 w2 \<Longrightarrow> R w2 w3 \<Longrightarrow> R w1 w3"
  unfolding admits_def by blast

lemma steps_ret: "admits R EV Q \<Longrightarrow> steps R (ret x)"
  by (simp add: steps_def ret_def admits_def)

lemma steps_throw: "admits R EV Q \<Longrightarrow> steps R (throw e)"
  by (simp add: steps_def throw_def admits_def)

lemma steps_now: "admits R EV Q \<Longrightarrow> steps R now"
  by (simp add: steps_def now_def admits_def)

lemma steps_getDatabase: "admits R EV Q \<Longrightarrow> steps R getDatabase"
  by (simp add: steps_def getDatabase_def admits_def)

lemma steps_generateSupplierOrderId: "admits R EV Q \<Longrightarrow> steps R generateSupplierOrderId"
  by (simp add: steps_def generateSupplierOrderId_def admits_def)

lemma steps_console_log: "admits R EV Q \<Longrightarrow> EV ev \<Longrightarrow> steps R (console_log ev)"
  by (simp add: steps_def console_log_def admits_def)

lemma steps_bind:
  assumes "admits R EV Q" "steps R m" "\<And>x. steps R (f x)"
  shows "steps R (bind m f)"
  unfolding steps_def
proof
  fix w
  obtain r w1 where m: "m w = (r, w1)" by (cases "m w")
  have 1: "R w w1" using assms(2) m by (auto simp: steps_def dest: spec[of _ w])
  show "R w (snd (bind m f w))"
  proof (cases r)
    case (Inl e)
    then show ?thesis using 1 m by (simp add: bind_def)
  next
    case (Inr x)
    have "R w1 (snd (f x w1))" using assms(3)[of x] by (simp add: steps_def)
    then show ?thesis using 1 m Inr admits_trans[OF assms(1)] by (auto simp add: bind_def)
  qed
qed

lemma steps_try_catch:
  assumes "admits R EV Q" "steps R m" "\<And>e. steps R (h e)"
  shows "steps R (try_catch m h)"
  unfolding steps_def
proof
  fix w
  obtain r w1 where m: "m w = (r, w1)" by (cases "m w")
  have 1: "R w w1" using assms(2) m by (auto simp: steps_def dest: spec[of _ w])
  show "R w (snd (try_catch m h w))"
  proof (cases r)
    case (Inr x)
    then show ?thesis using 1 m by (simp add: try_catch_def)
  next
    case (Inl e)
    have "R w1 (snd (h e w1))" using assms(3)[of e] by (simp add: steps_def)
    then show ?thesis using 1 m Inl admits_trans[OF assms(1)] by (auto simp add: try_catch_def)
  qed
qed

lemma steps_world_if:
  "steps R a \<Longrightarrow> steps R b \<Longrightarrow> steps R (\<lambda>w. (if c w then a else b) w)"
  by (simp add: steps_def)

lemma steps_if: "steps R a \<Longrightarrow> steps R b \<Longrightarrow> steps R (if c then a else b)"
  by simp

lemma steps_store_write:
  assumes "admits R EV Q" "\<And>w. R w (change w)"
  shows "steps R (store_write change)"
  unfolding steps_def
proof
  fix w :: world
  have t: "\<And>v. R v (v\<lparr>tick := Suc (tick w)\<rparr>)" using assms(1) by (simp add: admits_def)
  show "R w (snd (store_write change w))"
    using t[of w] admits_trans[OF assms(1) assms(2)[of w] t[of "change w"]]
    by (simp add: store_write_def split: fault.splits)
qed

lemma steps_update_orders:
  assumes "admits R EV Q" "\<And>r. Q r r" "\<And>r. order_id r = oid \<Longrightarrow> Q r (f r)"
  shows "steps R (update_orders oid f)"
  unfolding update_orders_def
proof (rule steps_store_write[OF assms(1)])
  fix w :: world
  have "list_all2 Q (orders w) (map (\<lambda>r. if order_id r = oid then f r else r) (orders w))"
    using assms(2,3) by (simp add: list_all2_map2 list_all2_same)
  then show "R w (w\<lparr>orders := map (\<lambda>r. if order_id r = oid then f r else r) (orders w)\<rparr>)"
    using assms(1) by (simp add: admits_def)
qed

lemma steps_update_order_items:
  assumes "admits R EV Q" "\<And>r its. Q r (r\<lparr>order_items := its\<rparr>)"
  shows "steps R (update_order_items iid g)"
  unfolding update_order_items_def
proof (rule steps_store_write[OF assms(1)])
  fix w :: world
  let ?rows = "map (\<lambda>r. r\<lparr>order_items := map (\<lambda>i. if item_id i = iid then g i else i) (order_items r)\<rparr>) (orders w)"
  have "list_all2 Q (orders w) ?rows"
    using assms(2) by (simp add: list_all2_map2 list_all2_same)
  then show "R w (w\<lparr>orders := ?rows\<rparr>)"
    using assms(1) by (simp add: admits_def)
qed

lemma steps_insert_profit_transfers:
  assumes "admits R EV Q"
  shows "steps R (insert_profit_transfers rec)"
  unfolding insert_profit_transfers_def
  by (rule steps_store_write[OF assms]) (use assms in \<open>simp add: admits_def\<close>)

lemma steps_select_pending: "admits R EV Q \<Longrightarrow> steps R select_pending"
  by (simp add: steps_def select_pending_def admits_def split: fault.splits)

lemma steps_retrieve:
  "admits R EV Q \<Longrightarrow> EV (CallRetrieve pid) \<Longrightarrow> steps R (stripe_paymentIntents_retrieve pid)"
  by (simp add: steps_def stripe_paymentIntents_retrieve_def admits_def)

lemma steps_payouts_create:
  "admits R EV Q \<Longrightarrow> EV (CallPayoutCreate c oid) \<Longrightarrow> steps R (stripe_payouts_create c oid)"
  by (simp add: steps_def stripe_payouts_create_def admits_def)

lemma steps_processPayment:
  assumes resp: "admits R EV Q" and ev: "\<And>ev. EV ev"
    and q: "\<And>r. Q r r" "\<And>r. order_id r = order_id order \<Longrightarrow> Q r (r\<lparr>payment_status := Some ''paid''\<rparr>)"
  shows "steps R (processPayment order)"
  unfolding processPayment_def
  by (intro steps_bind[OF resp] steps_try_catch[OF resp] steps_world_if steps_if
        steps_getDatabase[OF resp] steps_retrieve[OF resp] steps_update_orders[OF resp]
        steps_throw[OF resp] steps_console_log[OF resp] ev q)

lemma steps_Date_setDate_plus: "admits R EV Q \<Longrightarrow> steps R (Date_setDate_plus t days)"
  by (simp add: steps_def Date_setDate_plus_def admits_def)

lemma steps_getEstimatedDeliveryDate:
  "admits R EV Q \<Longrightarrow> steps R (getEstimatedDeliveryDate s)"
  unfolding getEstimatedDeliveryDate_def Let_def
  by (auto split: nullable.splits
        intro!: steps_bind steps_throw steps_now steps_Date_setDate_plus)

lemma steps_createSupplierOrder:
  assumes resp: "admits R EV Q" and ev: "\<And>ev. \<not> is_payment_event ev \<Longrightarrow> EV ev"
  shows "steps R (createSupplierOrder item)"
  unfolding createSupplierOrder_def Let_def
  by (intro steps_bind[OF resp] steps_generateSupplierOrderId[OF resp]
        steps_getEstimatedDeliveryDate[OF resp] steps_console_log[OF resp] steps_ret[OF resp] ev)
     simp_all

lemma steps_processSupplierOrders_loop:
  assumes resp: "admits R EV Q" and ev: "\<And>ev. \<not> is_payment_event ev \<Longrightarrow> EV ev"
    and q: "\<And>r its. Q r (r\<lparr>order_items := its\<rparr>)"
  shows "steps R (processSupplierOrders_loop items acc)"
proof (induction items arbitrary: acc)
  case Nil
  show ?case by (simp add: steps_ret[OF resp])
next
  case (Cons item rest)
  show ?case
    unfolding processSupplierOrders_loop.simps
    by (intro steps_bind[OF resp] steps_try_catch[OF resp] steps_createSupplierOrder[OF resp]
          steps_getDatabase[OF resp] steps_update_order_items[OF resp] steps_ret[OF resp]
          steps_console_log[OF resp] steps_throw[OF resp] Cons.IH ev q)
       simp_all
qed

lemma steps_processSupplierOrders:
  assumes resp: "admits R EV Q" and ev: "\<And>ev. \<not> is_payment_event ev \<Longrightarrow> EV ev"
    and q: "\<And>r its. Q r (r\<lparr>order_items := its\<rparr>)"
  shows "steps R (processSupplierOrders items)"
  unfolding processSupplierOrders_def
  by (rule steps_processSupplierOrders_loop[OF resp ev q])

lemma steps_transferToBankAccount:
  assumes resp: "admits R EV Q" and ev: "\<And>ev. \<not> is_payment_event ev \<Longrightarrow> EV ev"
  shows "steps R (transferToBankAccount order p)"
  unfolding transferToBankAccount_def
  by (intro steps_bind[OF resp] steps_try_catch[OF resp] steps_payouts_create[OF resp]
        steps_getDatabase[OF resp] steps_now[OF resp] steps_insert_profit_transfers[OF resp]
        steps_console_log[OF resp] steps_throw[OF resp] ev)
     simp_all

lemma steps_markPayPalTransfer:
  assumes resp: "admits R EV Q"
  shows "steps R (markPayPalTransfer order p)"
  unfolding markPayPalTransfer_def
  by (intro steps_bind[OF resp] steps_getDatabase[OF resp] steps_now[OF resp]
        steps_insert_profit_transfers[OF resp])

lemma steps_handleProfitTransfer:
  assumes resp: "admits R EV Q" and ev: "\<And>ev. \<not> is_payment_event ev \<Longrightarrow> EV ev"
  shows "steps R (handleProfitTransfer order p)"
  unfolding handleProfitTransfer_def
  by (intro steps_bind[OF resp] steps_try_catch[OF resp] steps_world_if steps_if
        steps_transferToBankAccount[OF resp] steps_markPayPalTransfer[OF resp]
        steps_ret[OF resp] steps_console_log[OF resp] ev)
     simp_all

lemma processSingleOrder_split:
  "processSingleOrder order =
     bind getDatabase (\<lambda>_.
     bind (console_log (LogOrderStart (order_number order))) (\<lambda>_.
     bind (if payment_status order = Some ''pending'' then processPayment order else ret ()) (\<lambda>_.
     processSingleOrder_steps_2_5 order)))"
  by (simp add: processSingleOrder_def processSingleOrder_steps_2_5_def)

lemma steps_processSingleOrder_steps_2_5:
  assumes resp: "admits R EV Q" and ev: "\<And>ev. \<not> is_payment_event ev \<Longrightarrow> EV ev"
    and q: "row_updates_ok Q order"
  shows "steps R (processSingleOrder_steps_2_5 order)"
  unfolding processSingleOrder_steps_2_5_def Let_def
  by (intro steps_bind[OF resp] steps_now[OF resp] steps_update_orders[OF resp]
        steps_processSupplierOrders[OF resp] steps_handleProfitTransfer[OF resp]
        steps_console_log[OF resp] ev)
     (use q in \<open>simp_all add: row_updates_ok_def\<close>)

lemma steps_processSingleOrder:
  assumes resp: "admits R EV Q" and ev: "\<And>ev. EV ev"
    and q: "row_updates_ok Q order"
  shows "steps R (processSingleOrder order)"
  unfolding processSingleOrder_split
  by (intro steps_bind[OF resp] steps_getDatabase[OF resp] steps_console_log[OF resp] steps_if
        steps_processPayment[OF resp] steps_ret[OF resp]
        steps_processSingleOrder_steps_2_5[OF resp] ev q)
     (use q in \<open>simp_all add: row_updates_ok_def\<close>)

lemma steps_processOrders_step:
  assumes resp: "admits R EV Q" and ev: "\<And>ev. EV ev"
    and q: "row_updates_ok Q order"
  shows "steps R (processOrders_step order)"
  unfolding processOrders_step_def
  by (intro steps_try_catch[OF resp] steps_bind[OF resp] steps_processSingleOrder[OF resp]
        steps_console_log[OF resp] steps_now[OF resp] steps_update_orders[OF resp] ev q)
     (use q in \<open>simp_all add: row_updates_ok_def\<close>)

lemma steps_processOrders_loop:
  assumes resp: "admits R EV Q" and ev: "\<And>ev. EV ev"
    and q: "\<And>order. order \<in> set pending \<Longrightarrow> row_updates_ok Q order"
  shows "steps R (processOrders_loop pending)"
  using q
proof (induction pending)
  case Nil
  show ?case by (simp add: steps_ret[OF resp])
next
  case (Cons order rest)
  show ?case
    unfolding processOrders_loop.simps
    by (intro steps_bind[OF resp] steps_processOrders_step[OF resp] ev Cons.IH Cons.prems) simp_all
qed

subsection \<open>The environment is never changed\<close>

lemma admits_frame: "admits frame (\<lambda>_. True) (\<lambda>_ _. True)"
  by (simp add: admits_def frame_def)

lemma row_updates_ok_True: "row_updates_ok (\<lambda>_ _. True) order"
  by (simp add: row_updates_ok_def)

lemma frame_processPayment: "frame w (snd (processPayment order w))"
  using steps_processPayment[OF admits_frame, of order] by (simp add: steps_def)

lemma frame_processSupplierOrders: "frame w (snd (processSupplierOrders items w))"
  using steps_processSupplierOrders[OF admits_frame, of items] by (simp add: steps_def)

lemma frame_handleProfitTransfer: "frame w (snd (handleProfitTransfer order p w))"
  using steps_handleProfitTransfer[OF admits_frame, of order p] by (simp add: steps_def)

lemma frame_processSingleOrder: "frame w (snd (processSingleOrder order w))"
  using steps_processSingleOrder[OF admits_frame _ row_updates_ok_True, of order]
  by (simp add: steps_def)

lemma frame_processOrders_step: "frame w (snd (processOrders_step order w))"
  using steps_processOrders_step[OF admits_frame _ row_updates_ok_True, of order]
  by (simp add: steps_def)

lemma frame_processOrders_loop: "frame w (snd (processOrders_loop pending w))"
  using steps_processOrders_loop[OF admits_frame _ row_updates_ok_True, of pending]
  by (simp add: steps_def)

subsection \<open>The profit sum\<close>


subsection \<open>Runs on a store that applies every call\<close>

lemma createSupplierOrder_fails:
  "supplier_error (supplier item) = Some e \<Longrightarrow> createSupplierOrder item w = (Inl e, w)"
  by (auto simp: createSupplierOrder_def supplier_error_def getEstimatedDeliveryDate_def
        generateSupplierOrderId_def bind_def throw_def Let_def
        split: nullable.splits if_splits)

lemma createSupplierOrder_succeeds:
  "supplier_error (supplier item) = None \<Longrightarrow>
   \<exists>so. so_id so = generated_id w (tick w) \<and>
     createSupplierOrder item w =
       (Inr so, w\<lparr>trace := trace w @ [LogSupplierOrderCreated (generated_id w (tick w)) (quantity item),
                                       Dispatched (item_id item)]\<rparr>)"
  by (auto simp: createSupplierOrder_def supplier_error_def getEstimatedDeliveryDate_def
        generateSupplierOrderId_def Date_setDate_plus_def bind_def throw_def ret_def now_def
        console_log_def Let_def
        split: nullable.splits if_splits)


lemma processSupplierOrders_loop_fst:
  assumes "db_ready w" "\<forall>n. store_fault w n = Applied"
  shows "case dispatch_error items of
           Some e \<Rightarrow> fst (processSupplierOrders_loop items acc w) = Inl e
         | None \<Rightarrow> (\<exists>sos. fst (processSupplierOrders_loop items acc w) = Inr sos)"
  using assms
proof (induction items arbitrary: acc w)
  case Nil
  show ?case by (simp add: ret_def)
next
  case (Cons item rest)
  show ?case
  proof (cases "supplier_error (supplier item)")
    case (Some e)
    then show ?thesis
      using createSupplierOrder_fails[OF Some, of w]
      by (simp add: bind_def try_catch_def console_log_def throw_def)
  next
    case None
    from createSupplierOrder_succeeds[OF None, of w] obtain so where
      so: "createSupplierOrder item w =
         (Inr so, w\<lparr>trace := trace w @ [LogSupplierOrderCreated (generated_id w (tick w)) (quantity item),
                                       Dispatched (item_id item)]\<rparr>)"
      by blast
    let ?w2 = "w\<lparr>trace := trace w @ [LogSupplierOrderCreated (generated_id w (tick w)) (quantity item),
                                       Dispatched (item_id item)],
                  orders := map (\<lambda>r. r\<lparr>order_items := map (\<lambda>i. if item_id i = item_id item
                       then i\<lparr>supplier_order_id := Some (so_id so), supplier_status := ''ordered''\<rparr>
                       else i) (order_items r)\<rparr>) (orders w),
                  tick := Suc (tick w)\<rparr>"
    have step: "processSupplierOrders_loop (item # rest) acc w =
        processSupplierOrders_loop rest (acc @ [so]) ?w2"
      using so Cons.prems
      by (simp add: bind_def try_catch_def getDatabase_def update_order_items_def store_write_def
            ret_def)
    have "case dispatch_error rest of
           Some e \<Rightarrow> fst (processSupplierOrders_loop rest (acc @ [so]) ?w2) = Inl e
         | None \<Rightarrow> (\<exists>sos. fst (processSupplierOrders_loop rest (acc @ [so]) ?w2) = Inr sos)"
      by (rule Cons.IH) (use Cons.prems in simp_all)
    then show ?thesis unfolding step using None by simp
  qed
qed

lemma processPayment_fst:
  assumes "db_ready w" "\<forall>n. store_fault w n = Applied"
  shows "fst (processPayment order w) =
     (case payment_error (stripe w) (paymentIntents_retrieve w) order of
        Some e \<Rightarrow> Inl e | None \<Rightarrow> Inr ())"
  using assms
  by (simp add: processPayment_def payment_error_def bind_def try_catch_def getDatabase_def
        stripe_paymentIntents_retrieve_def update_orders_def store_write_def throw_def
        console_log_def split: sum.splits)

lemma handleProfitTransfer_fst: "fst (handleProfitTransfer order p w) = Inr ()"
  by (simp add: handleProfitTransfer_def try_catch_def console_log_def
        split: prod.splits sum.splits)

lemma frame_reliable:
  "frame w w' \<Longrightarrow> db_ready w \<Longrightarrow> \<forall>n. store_fault w n = Applied \<Longrightarrow>
   db_ready w' \<and> (\<forall>n. store_fault w' n = Applied)"
  by (simp add: frame_def)

lemma frame_order_error: "frame w w' \<Longrightarrow> order_error w' order = order_error w order"
  by (simp add: frame_def order_error_def)

lemma steps_2_5_reliable:
  assumes rel: "db_ready w" "\<forall>n. store_fault w n = Applied"
  shows "fst (processSingleOrder_steps_2_5 order w) =
           (case dispatch_error (order_items order) of Some e \<Rightarrow> Inl e | None \<Rightarrow> Inr ())"
    and "dispatch_error (order_items order) = None \<Longrightarrow>
           \<forall>r \<in> set (orders (snd (processSingleOrder_steps_2_5 order w))).
             order_id r = order_id order \<longrightarrow> status r = ''completed''"
proof -
  let ?p = "calculateProfit order"
  let ?w3 = "w\<lparr>orders := map (\<lambda>r. if order_id r = order_id order
                 then r\<lparr>profit_amount := ?p, updated_at := date_now w (tick w)\<rparr> else r) (orders w),
               tick := Suc (tick w)\<rparr>"
  obtain rd w4 where d: "processSupplierOrders (order_items order) ?w3 = (rd, w4)"
    by (cases "processSupplierOrders (order_items order) ?w3")
  have f4: "frame ?w3 w4" using frame_processSupplierOrders[of ?w3 "order_items order"] d by simp
  have rel4: "db_ready w4" "\<forall>n. store_fault w4 n = Applied"
    using f4 rel by (simp_all add: frame_def)
  have rd: "case dispatch_error (order_items order) of
              Some e \<Rightarrow> rd = Inl e | None \<Rightarrow> (\<exists>sos. rd = Inr sos)"
  proof -
    have "fst (processSupplierOrders_loop (order_items order) [] ?w3) = rd"
      using d by (simp add: processSupplierOrders_def)
    then show ?thesis
      using processSupplierOrders_loop_fst[of ?w3 "order_items order" "[]"] rel
      by (auto split: option.splits)
  qed
  have start: "processSingleOrder_steps_2_5 order w =
      (case rd of Inl e \<Rightarrow> (Inl e, w4)
       | Inr sos \<Rightarrow>
          bind (handleProfitTransfer order ?p) (\<lambda>_.
          bind now (\<lambda>t2.
          bind (update_orders (order_id order)
                  (\<lambda>r. r\<lparr>status := ''completed'', updated_at := t2\<rparr>)) (\<lambda>_.
          console_log (LogOrderDone (order_number order))))) w4)"
    using rel d
    by (simp add: processSingleOrder_steps_2_5_def Let_def bind_def now_def update_orders_def
          store_write_def split: sum.splits)
  obtain w5 where h: "handleProfitTransfer order ?p w4 = (Inr (), w5)"
    using handleProfitTransfer_fst[of order ?p w4]
    by (cases "handleProfitTransfer order ?p w4") auto
  have f5: "frame w4 w5" using frame_handleProfitTransfer[of w4 order ?p] h by simp
  have rel5: "db_ready w5" "\<forall>n. store_fault w5 n = Applied"
    using f5 rel4 by (simp_all add: frame_def)
  let ?w7 = "w5\<lparr>orders := map (\<lambda>r. if order_id r = order_id order
                 then r\<lparr>status := ''completed'', updated_at := date_now w5 (tick w5)\<rparr> else r)
                 (orders w5),
               tick := Suc (tick w5),
               trace := trace w5 @ [LogOrderDone (order_number order)]\<rparr>"
  have fin: "\<And>sos. rd = Inr sos \<Longrightarrow> processSingleOrder_steps_2_5 order w = (Inr (), ?w7)"
    using start h rel5
    by (simp add: bind_def now_def update_orders_def store_write_def console_log_def)
  show "fst (processSingleOrder_steps_2_5 order w) =
           (case dispatch_error (order_items order) of Some e \<Rightarrow> Inl e | None \<Rightarrow> Inr ())"
  proof (cases "dispatch_error (order_items order)")
    case None
    then obtain sos where "rd = Inr sos" using rd by auto
    from fin[OF this] None show ?thesis by simp
  next
    case (Some e)
    then have "rd = Inl e" using rd by simp
    then show ?thesis using start Some by simp
  qed
  show "\<forall>r \<in> set (orders (snd (processSingleOrder_steps_2_5 order w))).
             order_id r = order_id order \<longrightarrow> status r = ''completed''"
    if dn: "dispatch_error (order_items order) = None"
  proof -
    obtain sos where "rd = Inr sos" using rd dn by auto
    from fin[OF this] show ?thesis by auto
  qed
qed

lemma processSingleOrder_reliable:
  assumes rel: "db_ready w" "\<forall>n. store_fault w n = Applied"
  shows "fst (processSingleOrder order w) =
           (case order_error w order of Some e \<Rightarrow> Inl e | None \<Rightarrow> Inr ())"
    and "order_error w order = None \<Longrightarrow>
           \<forall>r \<in> set (orders (snd (processSingleOrder order w))).
             order_id r = order_id order \<longrightarrow> status r = ''completed''"
proof -
  let ?w1 = "w\<lparr>trace := trace w @ [LogOrderStart (order_number order)]\<rparr>"
  let ?pay = "if payment_status order = Some ''pending'' then processPayment order else ret ()"
  let ?perr = "if payment_status order = Some ''pending''
            then payment_error (stripe w) (paymentIntents_retrieve w) order else None"
  obtain rp w2 where p: "?pay ?w1 = (rp, w2)" by (cases "?pay ?w1")
  have f2: "frame ?w1 w2"
    using frame_processPayment[of ?w1 order] p by (auto simp: ret_def frame_def split: if_splits)
  have rel2: "db_ready w2" "\<forall>n. store_fault w2 n = Applied"
    using f2 rel by (simp_all add: frame_def)
  have rp: "rp = (case ?perr of Some e \<Rightarrow> Inl e | None \<Rightarrow> Inr ())"
    using processPayment_fst[of ?w1 order] rel p by (auto simp: ret_def split: if_splits)
  have start: "processSingleOrder order w =
      (case rp of Inl e \<Rightarrow> (Inl e, w2) | Inr _ \<Rightarrow> processSingleOrder_steps_2_5 order w2)"
    using rel p
    by (simp add: processSingleOrder_split bind_def getDatabase_def console_log_def
          split: sum.splits)
  show "fst (processSingleOrder order w) =
           (case order_error w order of Some e \<Rightarrow> Inl e | None \<Rightarrow> Inr ())"
    using start rp steps_2_5_reliable(1)[OF rel2, of order]
    by (simp add: order_error_def split: option.splits)
  show "\<forall>r \<in> set (orders (snd (processSingleOrder order w))).
             order_id r = order_id order \<longrightarrow> status r = ''completed''"
    if "order_error w order = None"
  proof -
    from that have "?perr = None" "dispatch_error (order_items order) = None"
      by (auto simp add: order_error_def split: option.splits if_splits)
    then show ?thesis
      using start rp steps_2_5_reliable(2)[OF rel2, of order] by simp
  qed
qed

lemma processOrders_step_reliable:
  assumes rel: "db_ready w" "\<forall>n. store_fault w n = Applied"
  shows "fst (processOrders_step order w) = Inr ()"
    and "\<forall>r \<in> set (orders (snd (processOrders_step order w))).
           order_id r = order_id order \<longrightarrow>
             (case order_error w order of
                None \<Rightarrow> status r = ''completed''
              | Some e \<Rightarrow> status r = ''failed'' \<and> error_message r = Some (message e))"
proof -
  obtain rs w1 where s: "processSingleOrder order w = (rs, w1)"
    by (cases "processSingleOrder order w")
  have f1: "frame w w1" using frame_processSingleOrder[of w order] s by simp
  have rel1: "db_ready w1" "\<forall>n. store_fault w1 n = Applied"
    using f1 rel by (simp_all add: frame_def)
  have rs: "rs = (case order_error w order of Some e \<Rightarrow> Inl e | None \<Rightarrow> Inr ())"
    using processSingleOrder_reliable(1)[OF rel, of order] s by simp
  show "fst (processOrders_step order w) = Inr ()"
    using s rel1
    by (simp add: processOrders_step_def try_catch_def bind_def console_log_def now_def
          update_orders_def store_write_def split: sum.splits)
  show "\<forall>r \<in> set (orders (snd (processOrders_step order w))).
           order_id r = order_id order \<longrightarrow>
             (case order_error w order of
                None \<Rightarrow> status r = ''completed''
              | Some e \<Rightarrow> status r = ''failed'' \<and> error_message r = Some (message e))"
  proof (cases "order_error w order")
    case None
    then have "processOrders_step order w = (Inr (), w1)"
      using s rs by (simp add: processOrders_step_def try_catch_def)
    then show ?thesis using processSingleOrder_reliable(2)[OF rel None] s None by simp
  next
    case (Some e)
    then show ?thesis
      using s rs rel1
      by (auto simp add: processOrders_step_def try_catch_def bind_def console_log_def now_def
          update_orders_def store_write_def)
  qed
qed

subsection \<open>The loop over a batch\<close>

lemma admits_keeps_others:
  "admits (\<lambda>w w'. list_all2 (keeps_others ids) (orders w) (orders w')) (\<lambda>_. True)
     (keeps_others ids)"
proof -
  have refl: "\<And>xs. list_all2 (keeps_others ids) xs xs"
    by (simp add: list_all2_same keeps_others_def)
  have trans: "list_all2 (keeps_others ids) xs zs"
    if a: "list_all2 (keeps_others ids) xs ys" and b: "list_all2 (keeps_others ids) ys zs"
    for xs ys zs
    by (rule list_all2_trans[OF _ a b]) (auto simp: keeps_others_def)
  show ?thesis
    unfolding admits_def using refl trans by auto
qed

lemma row_updates_ok_keeps_others:
  "order_id order \<in> ids \<Longrightarrow> row_updates_ok (keeps_others ids) order"
  by (simp add: row_updates_ok_def keeps_others_def)

lemma processOrders_loop_keeps_others:
  "list_all2 (keeps_others (order_id ` set pending)) (orders w)
     (orders (snd (processOrders_loop pending w)))"
  using steps_processOrders_loop[OF admits_keeps_others, of pending "order_id ` set pending"]
  by (simp add: steps_def row_updates_ok_keeps_others)

lemma list_all2_in_set2:
  "list_all2 P xs ys \<Longrightarrow> y \<in> set ys \<Longrightarrow> \<exists>x \<in> set xs. P x y"
  by (induction rule: list_all2_induct) auto

lemma processOrders_loop_reliable:
  assumes "db_ready w" "\<forall>n. store_fault w n = Applied" "distinct (map order_id pending)"
  shows "fst (processOrders_loop pending w) = Inr () \<and>
    (\<forall>order \<in> set pending. \<forall>r \<in> set (orders (snd (processOrders_loop pending w))).
       order_id r = order_id order \<longrightarrow>
         (case order_error w order of
            None \<Rightarrow> status r = ''completed''
          | Some e \<Rightarrow> status r = ''failed'' \<and> error_message r = Some (message e)))"
  using assms
proof (induction pending arbitrary: w)
  case Nil
  show ?case by (simp add: ret_def)
next
  case (Cons order rest)
  obtain w1 where s: "processOrders_step order w = (Inr (), w1)"
    using processOrders_step_reliable(1)[OF Cons.prems(1,2), of order]
    by (cases "processOrders_step order w") auto
  have f1: "frame w w1" using frame_processOrders_step[of w order] s by simp
  have rel1: "db_ready w1" "\<forall>n. store_fault w1 n = Applied"
    using f1 Cons.prems by (simp_all add: frame_def)
  have step: "processOrders_loop (order # rest) w = processOrders_loop rest w1"
    using s by (simp add: bind_def)
  have d: "distinct (map order_id rest)" "order_id order \<notin> order_id ` set rest"
    using Cons.prems(3) by auto
  note IH = Cons.IH[OF rel1 d(1)]
  have rows1: "\<forall>r \<in> set (orders w1). order_id r = order_id order \<longrightarrow>
         (case order_error w order of
            None \<Rightarrow> status r = ''completed''
          | Some e \<Rightarrow> status r = ''failed'' \<and> error_message r = Some (message e))"
    using processOrders_step_reliable(2)[OF Cons.prems(1,2), of order] s by simp
  have head: "\<forall>r \<in> set (orders (snd (processOrders_loop rest w1))).
       order_id r = order_id order \<longrightarrow>
         (case order_error w order of
            None \<Rightarrow> status r = ''completed''
          | Some e \<Rightarrow> status r = ''failed'' \<and> error_message r = Some (message e))"
  proof (intro ballI impI)
    fix r' assume r': "r' \<in> set (orders (snd (processOrders_loop rest w1)))"
      and id: "order_id r' = order_id order"
    from list_all2_in_set2[OF processOrders_loop_keeps_others[of rest w1] r']
    obtain r where r: "r \<in> set (orders w1)" "keeps_others (order_id ` set rest) r r'" by blast
    then have "order_id r = order_id order" "status r' = status r"
      "error_message r' = error_message r"
      using id d(2) by (auto simp: keeps_others_def)
    then show "case order_error w order of
            None \<Rightarrow> status r' = ''completed''
          | Some e \<Rightarrow> status r' = ''failed'' \<and> error_message r' = Some (message e)"
      using rows1 r(1) by (auto split: option.splits)
  qed
  have tail: "\<forall>o' \<in> set rest. \<forall>r \<in> set (orders (snd (processOrders_loop rest w1))).
       order_id r = order_id o' \<longrightarrow>
         (case order_error w o' of
            None \<Rightarrow> status r = ''completed''
          | Some e \<Rightarrow> status r = ''failed'' \<and> error_message r = Some (message e))"
    using IH frame_order_error[OF f1] by simp
  show ?case unfolding step using IH head tail by simp
qed

lemma distinct_map_sort_key:
  "distinct (map g (sort_key f xs)) \<longleftrightarrow> distinct (map g xs)"
proof -
  have "distinct (map g ys) \<longleftrightarrow> card (g ` set ys) = length ys" for ys
    using distinct_card[of "map g ys"] card_distinct[of "map g ys"] by auto
  then show ?thesis by simp
qed

lemma processOrders_reliable:
  assumes "db_ready w" "\<forall>n. store_fault w n = Applied"
  shows "orders (snd (processOrders w)) =
     orders (snd (processOrders_loop (pending_batch w)
        (w\<lparr>tick := Suc (tick w), trace := trace w @ [LogProcessing (length (pending_batch w))]\<rparr>)))"
  using assms
  by (simp add: processOrders_def processOrders_try_def try_catch_def bind_def getDatabase_def
        select_pending_def pending_batch_def console_log_def split: prod.splits sum.splits)

lemma pending_batch_props:
  "length (pending_batch w) \<le> 10"
  "\<forall>order \<in> set (pending_batch w). status order = ''pending'' \<and> order \<in> set (orders w)"
  "sorted (map created_at (pending_batch w))"
  "distinct (map order_id (orders w)) \<Longrightarrow> distinct (map order_id (pending_batch w))"
proof -
  show "length (pending_batch w) \<le> 10" by (simp add: pending_batch_def)
  show "\<forall>order \<in> set (pending_batch w). status order = ''pending'' \<and> order \<in> set (orders w)"
    by (auto simp: pending_batch_def dest!: in_set_takeD)
  show "sorted (map created_at (pending_batch w))"
    by (simp add: pending_batch_def take_map[symmetric] sorted_wrt_take del: take_map)
  show "distinct (map order_id (pending_batch w))" if "distinct (map order_id (orders w))"
    using that
    by (simp add: pending_batch_def take_map[symmetric] distinct_map_sort_key distinct_map_filter
          del: take_map)
qed

subsection \<open>Dispatched items\<close>

lemma retrieve_calls_append [simp]:
  "retrieve_calls (xs @ ys) = retrieve_calls xs @ retrieve_calls ys"
  by (induction xs rule: retrieve_calls.induct) simp_all

lemma dispatched_ids_append [simp]:
  "dispatched_ids (xs @ ys) = dispatched_ids xs @ dispatched_ids ys"
  by (induction xs rule: dispatched_ids.induct) simp_all




subsection \<open>Payment events\<close>

lemma admits_payment_events:
  "admits (\<lambda>w w'. payment_events (trace w') = payment_events (trace w))
     (\<lambda>ev. \<not> is_payment_event ev) (\<lambda>_ _. True)"
  by (simp add: admits_def payment_events_def)

lemma steps_2_5_payment_events:
  "payment_events (trace (snd (processSingleOrder_steps_2_5 order w))) = payment_events (trace w)"
  using steps_processSingleOrder_steps_2_5[OF admits_payment_events _ row_updates_ok_True, of order]
  by (simp add: steps_def)

lemma processPayment_runs:
  "db_ready w \<Longrightarrow>
   verifier_runs (trace (snd (processPayment order w))) = verifier_runs (trace w) + 1"
  by (auto simp add: processPayment_def io_defs verifier_runs_def payment_events_def
        split: sum.splits fault.splits)

lemma processSingleOrder_verifier:
  "verifier_runs (trace (snd (processSingleOrder order w))) =
     verifier_runs (trace w) +
       (if db_ready w \<and> payment_status order = Some ''pending'' then 1 else 0)"
  "payment_status order \<noteq> Some ''pending'' \<Longrightarrow>
     payment_events (trace (snd (processSingleOrder order w))) = payment_events (trace w)"
proof -
  let ?w1 = "w\<lparr>trace := trace w @ [LogOrderStart (order_number order)]\<rparr>"
  let ?pay = "if payment_status order = Some ''pending'' then processPayment order else ret ()"
  obtain rp w2 where p: "?pay ?w1 = (rp, w2)" by (cases "?pay ?w1")
  have unf: "processSingleOrder order w =
      (if db_ready w then
         (case rp of Inl e \<Rightarrow> (Inl e, w2) | Inr _ \<Rightarrow> processSingleOrder_steps_2_5 order w2)
       else (Inl (Error ''Database not initialized. Call initializeDatabase() first.''), w))"
    using p
    by (simp add: processSingleOrder_split bind_def getDatabase_def console_log_def
          split: sum.splits)
  have pe: "payment_events (trace (snd (processSingleOrder order w))) =
      (if db_ready w then payment_events (trace w2) else payment_events (trace w))"
    unfolding unf using steps_2_5_payment_events[of order w2] by (simp split: sum.splits)
  have pe1: "payment_events (trace ?w1) = payment_events (trace w)"
    by (simp add: payment_events_def)
  show "payment_events (trace (snd (processSingleOrder order w))) = payment_events (trace w)"
    if "payment_status order \<noteq> Some ''pending''"
    using that p pe pe1 by (auto simp: ret_def)
  show "verifier_runs (trace (snd (processSingleOrder order w))) =
     verifier_runs (trace w) +
       (if db_ready w \<and> payment_status order = Some ''pending'' then 1 else 0)"
  proof (cases "db_ready w \<and> payment_status order = Some ''pending''")
    case True
    then have "verifier_runs (trace w2) = verifier_runs (trace ?w1) + 1"
      using processPayment_runs[of ?w1 order] p by simp
    then show ?thesis using True pe pe1 by (simp add: verifier_runs_def)
  next
    case False
    then have "payment_events (trace (snd (processSingleOrder order w))) = payment_events (trace w)"
      using p pe pe1 by (auto simp: ret_def)
    then show ?thesis using False by (simp add: verifier_runs_def)
  qed
qed

subsection \<open>The orders table and the profits\<close>











subsection \<open>Rows of small stores\<close>



lemma three_rows:
  "map order_id rows = [a, b, c] \<Longrightarrow>
   \<exists>x y z. rows = [x, y, z] \<and> order_id x = a \<and> order_id y = b \<and> order_id z = c"
  by auto

subsection \<open>Only the store makes the loop throw\<close>

lemma processOrders_step_no_throw:
  assumes "\<forall>n e. store_fault w n \<noteq> Thrown e"
  shows "fst (processOrders_step order w) = Inr ()"
proof -
  obtain rs w1 where s: "processSingleOrder order w = (rs, w1)"
    by (cases "processSingleOrder order w")
  have "frame w w1" using frame_processSingleOrder[of w order] s by simp
  then have nt: "\<forall>n e. store_fault w1 n \<noteq> Thrown e"
    using assms by (simp add: frame_def)
  show ?thesis
    using s nt
    by (auto simp add: processOrders_step_def try_catch_def bind_def console_log_def now_def
          update_orders_def store_write_def split: sum.splits fault.splits)
qed

lemma processOrders_loop_no_throw:
  "\<forall>n e. store_fault w n \<noteq> Thrown e \<Longrightarrow> fst (processOrders_loop pending w) = Inr ()"
proof (induction pending arbitrary: w)
  case Nil
  show ?case by (simp add: ret_def)
next
  case (Cons order rest)
  obtain w1 where s: "processOrders_step order w = (Inr (), w1)"
    using processOrders_step_no_throw[OF Cons.prems, of order]
    by (cases "processOrders_step order w") auto
  have "frame w w1" using frame_processOrders_step[of w order] s by simp
  then have "\<forall>n e. store_fault w1 n \<noteq> Thrown e"
    using Cons.prems by (simp add: frame_def)
  from Cons.IH[OF this] show ?case using s by (simp add: bind_def)
qed

subsection \<open>The payment step first, and the handler of the loop\<close>

lemmas run_defs = processOrders_def processOrders_try_def select_pending_def
  processOrders_step_def processSingleOrder_def processPayment_def calculateProfit_def
  processSupplierOrders_def handleProfitTransfer_def markPayPalTransfer_def
  transferToBankAccount_def Math_round_def io_defs Let_def

lemmas three_orders_defs = order_first_def order_second_def order_third_def order_no_items_def
  order_stripe_def world_base_def

lemma admits_extends_quietly:
  "admits extends_quietly (\<lambda>ev. \<not> is_payment_event ev) (\<lambda>_ _. True)"
proof -
  have trans: "extends_quietly w1 w3" if "extends_quietly w1 w2" "extends_quietly w2 w3"
    for w1 w2 w3
  proof -
    from that obtain r1 r2 where "trace w2 = trace w1 @ r1" "payment_events r1 = []"
      "trace w3 = trace w2 @ r2" "payment_events r2 = []"
      by (auto simp: extends_quietly_def)
    then have "trace w3 = trace w1 @ (r1 @ r2) \<and> payment_events (r1 @ r2) = []"
      by (simp add: payment_events_def)
    then show ?thesis unfolding extends_quietly_def by blast
  qed
  have ev: "extends_quietly w (w\<lparr>trace := trace w @ [e]\<rparr>)" if "\<not> is_payment_event e" for w e
    using that by (simp add: extends_quietly_def payment_events_def)
  have same: "extends_quietly w w'" if "trace w' = trace w" for w w'
    using that by (simp add: extends_quietly_def payment_events_def)
  show ?thesis
    unfolding admits_def using trans ev by (auto intro: same)
qed

lemma steps_2_5_extends_quietly:
  "\<exists>rest. trace (snd (processSingleOrder_steps_2_5 order w)) = trace w @ rest \<and>
     payment_events rest = []"
  using steps_processSingleOrder_steps_2_5[OF admits_extends_quietly _ row_updates_ok_True,
      of order]
  by (simp add: steps_def extends_quietly_def)

lemma processSingleOrder_pending:
  assumes "db_ready w" "payment_status order = Some ''pending''"
  shows "processSingleOrder order w =
      (case processPayment order (w\<lparr>trace := trace w @ [LogOrderStart (order_number order)]\<rparr>) of
         (Inl e, w2) \<Rightarrow> (Inl e, w2)
       | (Inr u, w2) \<Rightarrow> processSingleOrder_steps_2_5 order w2)"
    and "\<exists>rest. trace (snd (processSingleOrder order w)) =
        trace (snd (processPayment order
          (w\<lparr>trace := trace w @ [LogOrderStart (order_number order)]\<rparr>))) @ rest \<and>
        payment_events rest = []"
proof -
  let ?w1 = "w\<lparr>trace := trace w @ [LogOrderStart (order_number order)]\<rparr>"
  show eq: "processSingleOrder order w =
      (case processPayment order ?w1 of
         (Inl e, w2) \<Rightarrow> (Inl e, w2)
       | (Inr u, w2) \<Rightarrow> processSingleOrder_steps_2_5 order w2)"
    using assms
    by (simp add: processSingleOrder_split bind_def getDatabase_def console_log_def
          split: prod.splits sum.splits)
  obtain rp w2 where p: "processPayment order ?w1 = (rp, w2)"
    by (cases "processPayment order ?w1")
  show "\<exists>rest. trace (snd (processSingleOrder order w)) =
        trace (snd (processPayment order ?w1)) @ rest \<and> payment_events rest = []"
  proof (cases rp)
    case (Inl e)
    then have "trace (snd (processSingleOrder order w)) = trace (snd (processPayment order ?w1)) @ []"
      unfolding eq p by simp
    then show ?thesis by (intro exI[of _ "[]"]) (simp add: payment_events_def)
  next
    case (Inr u)
    then have "snd (processSingleOrder order w) = snd (processSingleOrder_steps_2_5 order w2)"
      unfolding eq p by simp
    then show ?thesis
      using steps_2_5_extends_quietly[of order w2] p by simp
  qed
qed

lemma processOrders_step_unfold:
  "processOrders_step order w =
     (case processSingleOrder order w of
        (Inr u, w1) \<Rightarrow> (Inr u, w1)
      | (Inl e, w1) \<Rightarrow>
          update_orders (order_id order)
            (\<lambda>r. r\<lparr>status := ''failed'', error_message := Some (message e),
                    updated_at := date_now w1 (tick w1)\<rparr>)
            (w1\<lparr>trace := trace w1 @ [LogOrderError (order_id order) e]\<rparr>))"
  by (simp add: processOrders_step_def try_catch_def bind_def console_log_def now_def
        split: prod.splits sum.splits)

lemma processOrders_step_persists:
  assumes "processSingleOrder order w = (Inl e, w1)" "store_fault w1 (tick w1) = Applied"
  shows "fst (processOrders_step order w) = Inr () \<and>
    orders (snd (processOrders_step order w)) =
      map (\<lambda>r. if order_id r = order_id order
               then r\<lparr>status := ''failed'', error_message := Some (message e),
                      updated_at := date_now w1 (tick w1)\<rparr>
               else r) (orders w1)"
  using assms
  by (simp add: processOrders_step_unfold update_orders_def store_write_def)

lemma processOrders_step_mark_throws:
  assumes "processSingleOrder order w = (Inl e, w1)" "store_fault w1 (tick w1) = Thrown e'"
  shows "fst (processOrders_step order w) = Inl e' \<and>
    orders (snd (processOrders_step order w)) = orders w1"
  using assms
  by (simp add: processOrders_step_unfold update_orders_def store_write_def)

lemma processOrders_step_mark_rejected:
  assumes "processSingleOrder order w = (Inl e, w1)" "store_fault w1 (tick w1) = Rejected e'"
  shows "fst (processOrders_step order w) = Inr () \<and>
    orders (snd (processOrders_step order w)) = orders w1"
  using assms
  by (simp add: processOrders_step_unfold update_orders_def store_write_def)

lemma processOrders_try_unfold:
  assumes "db_ready w" "store_fault w (tick w) = Applied"
  shows "processOrders_try w =
     (case processOrders_loop (pending_batch w)
             (w\<lparr>tick := Suc (tick w),
                trace := trace w @ [LogProcessing (length (pending_batch w))]\<rparr>) of
        (Inl e, w1) \<Rightarrow> (Inl e, w1)
      | (Inr u, w1) \<Rightarrow> (Inr (), w1\<lparr>trace := trace w1 @ [LogBatchCompleted]\<rparr>))"
  using assms
  by (simp add: processOrders_try_def bind_def getDatabase_def select_pending_def
        pending_batch_def console_log_def split: prod.splits sum.splits)

section \<open>The claims\<close>

subsection \<open>C1: the payment verifier\<close>

text \<open>
  Claim C1, amended.  With the database initialised and a payment method other than
  \<^verbatim>\<open>paypal\<close>: \<^verbatim>\<open>processPayment\<close> returns normally, or changes the orders table, only when
  the method is \<^verbatim>\<open>stripe\<close>, Stripe is configured and the processor reports the status
  \<^verbatim>\<open>succeeded\<close>.  On that path the processor is consulted exactly once; a status other
  than \<^verbatim>\<open>succeeded\<close> fails with the message \<^verbatim>\<open>Payment not completed: \<close> followed by the
  raw status, a processor call that throws propagates its error, and \<^verbatim>\<open>succeeded\<close> marks
  the order paid when the store applies the write.  Any other method fails with
  \<^verbatim>\<open>Unsupported payment method\<close> and the processor is not consulted.
\<close>

theorem processPayment_verification:
  assumes "db_ready w" and "payment_method order \<noteq> Some ''paypal''"
  shows
   "(fst (processPayment order w) = Inr () \<or>
       orders (snd (processPayment order w)) \<noteq> orders w \<longrightarrow>
       payment_method order = Some ''stripe'' \<and> stripe w \<and>
       paymentIntents_retrieve w (stripe_payment_id order) = Inr ''succeeded'') \<and>
    (payment_method order = Some ''stripe'' \<and> stripe w \<longrightarrow>
       retrieve_calls (trace (snd (processPayment order w))) =
         retrieve_calls (trace w) @ [stripe_payment_id order] \<and>
       (case paymentIntents_retrieve w (stripe_payment_id order) of
          Inl e \<Rightarrow> fst (processPayment order w) = Inl e
        | Inr st \<Rightarrow>
            if st = ''succeeded'' then
              (store_fault w (tick w) = Applied \<longrightarrow>
                 fst (processPayment order w) = Inr () \<and>
                 (\<forall>r \<in> set (orders (snd (processPayment order w))).
                    order_id r = order_id order \<longrightarrow> payment_status r = Some ''paid''))
            else fst (processPayment order w) = Inl (Error (''Payment not completed: '' @ st)))) \<and>
    (\<not> (payment_method order = Some ''stripe'' \<and> stripe w) \<longrightarrow>
       fst (processPayment order w) = Inl (Error ''Unsupported payment method'') \<and>
       retrieve_calls (trace (snd (processPayment order w))) = retrieve_calls (trace w))"
  using assms
  by (auto simp add: processPayment_def io_defs split: sum.splits fault.splits)

text \<open>A cleared payment, an open payment and an unsupported method.\<close>

theorem processPayment_verification_witness:
  "fst (processPayment order_stripe world_batch) = Inr () \<and>
   fst (processPayment order_unpaid world_batch) =
     Inl (Error ''Payment not completed: requires_payment_method'') \<and>
   fst (processPayment order_bank world_batch) = Inl (Error ''Unsupported payment method'')"
proof -
  have rel: "db_ready world_batch" by (simp add: world_batch_def world_base_def)
  have m: "payment_method order_stripe \<noteq> Some ''paypal''"
    "payment_method order_unpaid \<noteq> Some ''paypal''"
    "payment_method order_bank \<noteq> Some ''paypal''"
    by (simp_all add: order_stripe_def order_unpaid_def order_bank_def)
  show ?thesis
    using processPayment_verification[OF rel m(1)] processPayment_verification[OF rel m(2)]
      processPayment_verification[OF rel m(3)]
    by (simp add: world_batch_def world_base_def order_stripe_def order_unpaid_def order_bank_def)
qed

text \<open>
  C1 as stated fails: a \<^verbatim>\<open>paypal\<close> order is marked paid without any call to the
  processor, and an unsupported method fails with a message that carries no processor
  status.
\<close>

theorem processPayment_claim_counterexample:
  "payment_method order_paypal = Some ''paypal'' \<and>
   fst (processPayment order_paypal world_batch) = Inr () \<and>
   map payment_status (orders (snd (processPayment order_paypal world_batch))) =
     [Some ''paid'', Some ''pending'', Some ''pending''] \<and>
   retrieve_calls (trace (snd (processPayment order_paypal world_batch))) = [] \<and>
   fst (processPayment order_bank world_batch) = Inl (Error ''Unsupported payment method'')"
  by (simp add: processPayment_def io_defs world_batch_def world_base_def order_paypal_def
        order_bank_def order_stripe_def)

subsection \<open>C2: failure isolation in a batch\<close>

text \<open>
  Claim C2, amended.  Provided the database is initialised, the order ids are distinct
  (they are the primary key of the table) and the store applies every call of the run
  (none is answered with an error result, none throws), the batch that \<^verbatim>\<open>processOrders\<close>
  fetches holds at most 10 orders, all pending, oldest first, and each order of the batch
  ends as it would when processed alone: its row is \<^verbatim>\<open>completed\<close> when
  \<^verbatim>\<open>processSingleOrder\<close> returns for it, and \<^verbatim>\<open>failed\<close> with the error's message in
  \<^verbatim>\<open>error_message\<close> when it throws, whatever happens to the other orders of the batch.
\<close>

theorem batch_failure_isolation:
  assumes "db_ready w" and "\<forall>n. store_fault w n = Applied"
    and "distinct (map order_id (orders w))"
  shows "fst (select_pending w) = Inr (Some (pending_batch w), None) \<and>
    length (pending_batch w) \<le> 10 \<and>
    (\<forall>order \<in> set (pending_batch w). status order = ''pending'' \<and> order \<in> set (orders w)) \<and>
    sorted (map created_at (pending_batch w)) \<and>
    map order_id (orders (snd (processOrders w))) = map order_id (orders w) \<and>
    (\<forall>order \<in> set (pending_batch w). \<forall>r \<in> set (orders (snd (processOrders w))).
       order_id r = order_id order \<longrightarrow>
         (case fst (processSingleOrder order w) of
            Inr _ \<Rightarrow> status r = ''completed''
          | Inl e \<Rightarrow> status r = ''failed'' \<and> error_message r = Some (message e)))"
proof -
  let ?w0 = "w\<lparr>tick := Suc (tick w), trace := trace w @ [LogProcessing (length (pending_batch w))]\<rparr>"
  have rel0: "db_ready ?w0" "\<forall>n. store_fault ?w0 n = Applied" using assms by simp_all
  have oe: "order_error ?w0 order = order_error w order" for order
    by (simp add: order_error_def)
  have fin: "orders (snd (processOrders w)) = orders (snd (processOrders_loop (pending_batch w) ?w0))"
    by (rule processOrders_reliable[OF assms(1,2)])
  have ids: "map order_id (orders (snd (processOrders w))) = map order_id (orders w)"
  proof -
    have "list_all2 (keeps_others (order_id ` set (pending_batch w))) (orders ?w0)
       (orders (snd (processOrders_loop (pending_batch w) ?w0)))"
      by (rule processOrders_loop_keeps_others)
    then have "list_all2 (\<lambda>r r'. order_id r = order_id r') (orders w) (orders (snd (processOrders w)))"
      unfolding fin by (auto elim!: list_all2_mono simp: keeps_others_def)
    then show ?thesis by (simp add: list_all2_conv_all_nth list_eq_iff_nth_eq)
  qed
  have rows: "\<forall>order \<in> set (pending_batch w). \<forall>r \<in> set (orders (snd (processOrders w))).
       order_id r = order_id order \<longrightarrow>
         (case fst (processSingleOrder order w) of
            Inr _ \<Rightarrow> status r = ''completed''
          | Inl e \<Rightarrow> status r = ''failed'' \<and> error_message r = Some (message e))"
    using processOrders_loop_reliable[OF rel0 pending_batch_props(4)[OF assms(3)]]
    unfolding fin oe processSingleOrder_reliable(1)[OF assms(1,2)]
    by (auto split: option.splits)
  have sel: "fst (select_pending w) = Inr (Some (pending_batch w), None)"
    using assms(2) by (simp add: select_pending_def pending_batch_def)
  show ?thesis using sel pending_batch_props(1,2,3)[of w] ids rows by blast
qed

text \<open>
  A batch of three: the second order has an unsupported payment method and fails, the
  first and the third are completed.
\<close>

theorem batch_failure_isolation_witness:
  "pending_batch world_batch = [order_stripe, order_bank, order_paypal] \<and>
   map order_id (orders (snd (processOrders world_batch))) = [''o4'', ''o2'', ''o1''] \<and>
   map status (orders (snd (processOrders world_batch))) =
     [''completed'', ''failed'', ''completed''] \<and>
   error_message (orders (snd (processOrders world_batch)) ! 1) =
     Some ''Unsupported payment method''"
proof -
  have rel: "db_ready world_batch" "\<forall>n. store_fault world_batch n = Applied"
    by (simp_all add: world_batch_def world_base_def)
  have ow: "map order_id (orders world_batch) = [''o4'', ''o2'', ''o1'']"
    by (simp add: world_batch_def world_base_def order_paypal_def order_bank_def order_stripe_def)
  have dist: "distinct (map order_id (orders world_batch))"
    unfolding ow by simp
  have batch: "pending_batch world_batch = [order_stripe, order_bank, order_paypal]"
    by (simp add: pending_batch_def world_batch_def world_base_def order_paypal_def order_bank_def
          order_stripe_def)
  have e1: "fst (processSingleOrder order_stripe world_batch) = Inr ()"
    unfolding processSingleOrder_reliable(1)[OF rel]
    by (simp add: order_error_def payment_error_def supplier_error_def toLowerCase_def
          world_batch_def world_base_def order_stripe_def item_a_def item_b_def)
  have e2: "fst (processSingleOrder order_bank world_batch) = Inl (Error ''Unsupported payment method'')"
    unfolding processSingleOrder_reliable(1)[OF rel]
    by (simp add: order_error_def payment_error_def world_batch_def world_base_def
          order_bank_def order_stripe_def)
  have e4: "fst (processSingleOrder order_paypal world_batch) = Inr ()"
    unfolding processSingleOrder_reliable(1)[OF rel]
    by (simp add: order_error_def payment_error_def supplier_error_def toLowerCase_def
          world_batch_def world_base_def order_paypal_def order_stripe_def item_a_def item_b_def)
  have ids: "order_id order_stripe = ''o1''" "order_id order_bank = ''o2''"
    "order_id order_paypal = ''o4''"
    by (simp_all add: order_paypal_def order_bank_def order_stripe_def)
  note main = batch_failure_isolation[OF rel dist, unfolded batch ow]
  from main have "map order_id (orders (snd (processOrders world_batch))) = [''o4'', ''o2'', ''o1'']"
    by blast
  from three_rows[OF this] obtain x y z where
    xyz: "orders (snd (processOrders world_batch)) = [x, y, z]"
      "order_id x = ''o4''" "order_id y = ''o2''" "order_id z = ''o1''"
    by blast
  from main have rows: "\<forall>order \<in> set [order_stripe, order_bank, order_paypal].
      \<forall>r \<in> set [x, y, z]. order_id r = order_id order \<longrightarrow>
         (case fst (processSingleOrder order world_batch) of
            Inr _ \<Rightarrow> status r = ''completed''
          | Inl e \<Rightarrow> status r = ''failed'' \<and> error_message r = Some (message e))"
    unfolding xyz by blast
  have "status x = ''completed''" "status y = ''failed''"
    "error_message y = Some ''Unsupported payment method''" "status z = ''completed''"
    using rows xyz(2-4) e1 e2 e4 ids by auto
  then show ?thesis using batch xyz by simp
qed

text \<open>
  C2 as stated, for every store, fails.  The write that marks an order failed is awaited in
  the handler outside any inner \<^verbatim>\<open>try\<close>, and no result of a write is inspected.  With
  three pending orders of which the second has an unsupported payment method: when the
  write that marks the second order failed throws, the loop is left through the outer
  \<^verbatim>\<open>catch\<close>, and the third order, which is completed when processed alone, stays
  \<^verbatim>\<open>pending\<close> like the second; when that write is answered with an error result, the
  second order stays \<^verbatim>\<open>pending\<close> with no \<^verbatim>\<open>error_message\<close>.
\<close>

theorem batch_aborted_counterexample:
  "pending_batch world_store_throws = [order_first, order_second, order_third] \<and>
   fst (processSingleOrder order_second world_store_throws) =
     Inl (Error ''Unsupported payment method'') \<and>
   fst (processSingleOrder order_third world_store_throws) = Inr () \<and>
   fst (processOrders world_store_throws) = Inr () \<and>
   map status (orders (snd (processOrders world_store_throws))) =
     [''completed'', ''pending'', ''pending''] \<and>
   map status (orders (snd (processOrders world_store_rejects))) =
     [''completed'', ''pending'', ''completed''] \<and>
   map error_message (orders (snd (processOrders world_store_rejects))) = [None, None, None]"
  by (simp add: pending_batch_def run_defs world_store_throws_def world_store_rejects_def
        three_orders_defs)

subsection \<open>C3: profit transfer records\<close>

text \<open>
  Claim C3, amended.  \<^verbatim>\<open>handleProfitTransfer\<close> never throws and appends at most one record
  to \<^verbatim>\<open>profit_transfers\<close>.  It appends exactly one when the profit is positive, the
  database is initialised, the store applies the insert and either the method is
  \<^verbatim>\<open>stripe\<close> with Stripe configured and the payout was created (status \<^verbatim>\<open>pending\<close>) or the
  method is \<^verbatim>\<open>paypal\<close> (status \<^verbatim>\<open>pending_manual\<close>).  It appends none otherwise; in
  particular a payout call that fails is logged and leaves no record.
\<close>

theorem handleProfitTransfer_records:
  "fst (handleProfitTransfer order profitAmount w) = Inr () \<and>
   profit_transfers (snd (handleProfitTransfer order profitAmount w)) =
     profit_transfers w @
     (if 0 < profitAmount \<and> db_ready w \<and> store_fault w (tick w) = Applied then
        (if payment_method order = Some ''stripe'' \<and> stripe w then
           (case payouts_create w (Math_round (profitAmount * 100)) (order_id order) of
              Inl e \<Rightarrow> []
            | Inr payout_id \<Rightarrow>
                [\<lparr>pt_order_id = order_id order, amount = profitAmount, pt_method = ''stripe'',
                  transfer_id = payout_id, pt_status = ''pending'',
                  pt_created_at = date_now w (tick w), pt_notes = None\<rparr>])
         else if payment_method order = Some ''paypal'' then
           [\<lparr>pt_order_id = order_id order, amount = profitAmount, pt_method = ''paypal'',
             transfer_id = ''PP-'' @ order_number order, pt_status = ''pending_manual'',
             pt_created_at = date_now w (tick w),
             pt_notes = Some ''Manual PayPal transfer required''\<rparr>]
         else [])
      else []) \<and>
   length (profit_transfers (snd (handleProfitTransfer order profitAmount w)))
     \<le> length (profit_transfers w) + 1"
  by (auto simp add: handleProfitTransfer_def transferToBankAccount_def markPayPalTransfer_def
        io_defs split: sum.splits fault.splits)

text \<open>C3 as stated fails: the payout call throws and no record is written.\<close>

theorem handleProfitTransfer_payout_failure_counterexample:
  "payment_method order_stripe = Some ''stripe'' \<and> stripe world_batch \<and>
   Math_round (12.5 * 100) = 1250 \<and>
   payouts_create world_batch 1250 (order_id order_stripe) =
     Inl (ProcessorError ''insufficient funds'') \<and>
   fst (handleProfitTransfer order_stripe 12.5 world_batch) = Inr () \<and>
   profit_transfers (snd (handleProfitTransfer order_stripe 12.5 world_batch)) = []"
  by (simp add: handleProfitTransfer_def transferToBankAccount_def Math_round_def io_defs
        world_batch_def world_base_def order_stripe_def)

subsection \<open>C4: the profit formula\<close>

text \<open>
  Claim C4.  \<^verbatim>\<open>calculateProfit\<close> reads the margin of an item as
  \<^verbatim>\<open>item.profit_margin || 0.25\<close> under the comment ``Check if order items have custom
  margins''.  An explicit margin of 0 is falsy, so the default replaces it: for one item of
  total price 100 with the explicit margin 0 the function returns 25, where the sum of
  total price times explicit margin is 0.  The scenario of the claim, two items of total
  prices 10 and 40 without explicit margins, gives 12.5.  (0.25, the prices and every
  product and sum here are doubles, so the values are those of the program.)
\<close>

theorem calculateProfit_zero_margin:
  "order_items order_zero_margin = [item_zero_margin] \<and>
   profit_margin item_zero_margin = Some 0 \<and>
   total_price item_zero_margin = 100 \<and>
   calculateProfit order_zero_margin = 25 \<and>
   map (\<lambda>item. (total_price item, profit_margin item)) (order_items order_stripe) =
     [(10, None), (40, None)] \<and>
   calculateProfit order_stripe = 12.5"
  by (simp add: calculateProfit_def margin_or_default_def order_zero_margin_def
        order_stripe_def item_zero_margin_def item_a_def item_b_def)

subsection \<open>C5: when the payment verifier runs\<close>

text \<open>
  Claim C5, amended.  The pipeline invokes the payment verifier for an order exactly when
  the order's \<^verbatim>\<open>payment_status\<close> is \<^verbatim>\<open>pending\<close> (every run of \<^verbatim>\<open>processPayment\<close> prints
  one of its two console lines, and \<^verbatim>\<open>processSingleOrder\<close> adds exactly one such line when
  the status is \<^verbatim>\<open>pending\<close> and the database is initialised, and none otherwise).  For any
  other status, \<^verbatim>\<open>paid\<close> in particular, the verifier is not called again: the run adds no
  \<^verbatim>\<open>paymentIntents.retrieve\<close> call and none of the verifier's console lines.  An order
  whose status is \<^verbatim>\<open>pending\<close> is verified before anything else is done with it: after the
  first console line the run is that of \<^verbatim>\<open>processPayment\<close>; when the verifier throws,
  the run ends there with its error, and when it returns, the remaining steps (profit,
  supplier orders, profit transfer, completion) follow from the state it left, adding no
  event of the verifier.
\<close>

theorem verifier_runs_iff_pending:
  "verifier_runs (trace (snd (processSingleOrder order w))) =
     verifier_runs (trace w) +
       (if db_ready w \<and> payment_status order = Some ''pending'' then 1 else 0) \<and>
   (payment_status order \<noteq> Some ''pending'' \<longrightarrow>
      payment_events (trace (snd (processSingleOrder order w))) = payment_events (trace w)) \<and>
   (db_ready w \<and> payment_status order = Some ''pending'' \<longrightarrow>
      processSingleOrder order w =
        (case processPayment order
                (w\<lparr>trace := trace w @ [LogOrderStart (order_number order)]\<rparr>) of
           (Inl e, w2) \<Rightarrow> (Inl e, w2)
         | (Inr u, w2) \<Rightarrow> processSingleOrder_steps_2_5 order w2) \<and>
      (\<exists>rest. trace (snd (processSingleOrder order w)) =
          trace (snd (processPayment order
            (w\<lparr>trace := trace w @ [LogOrderStart (order_number order)]\<rparr>))) @ rest \<and>
          payment_events rest = []))"
  using processSingleOrder_verifier[of order w] processSingleOrder_pending[of w order]
  by simp

text \<open>
  An order that is already paid adds no payment event to the empty trace; a pending order
  with a cleared payment is verified once; a pending order whose payment has not cleared
  ends with the verifier's error, and nothing but the verifier has run.
\<close>

theorem verifier_runs_iff_pending_witness:
  "payment_status order_bank_paid = Some ''paid'' \<and>
   payment_events (trace (snd (processSingleOrder order_bank_paid world_bank_paid))) = [] \<and>
   verifier_runs (trace (snd (processSingleOrder order_stripe world_batch))) = 1 \<and>
   processSingleOrder order_unpaid world_batch =
     (Inl (Error ''Payment not completed: requires_payment_method''),
      world_batch\<lparr>trace := [LogOrderStart ''N5'', CallRetrieve (Some ''pi_open''),
        LogPaymentFailed ''N5'' (Error ''Payment not completed: requires_payment_method'')]\<rparr>)"
proof -
  have h: "db_ready world_batch \<and> payment_status order_unpaid = Some ''pending''"
    by (simp add: world_batch_def world_base_def order_unpaid_def order_stripe_def)
  have p: "processPayment order_unpaid
      (world_batch\<lparr>trace := trace world_batch @ [LogOrderStart (order_number order_unpaid)]\<rparr>) =
     (Inl (Error ''Payment not completed: requires_payment_method''),
      world_batch\<lparr>trace := [LogOrderStart ''N5'', CallRetrieve (Some ''pi_open''),
        LogPaymentFailed ''N5'' (Error ''Payment not completed: requires_payment_method'')]\<rparr>)"
    by (simp add: processPayment_def io_defs world_batch_def world_base_def order_unpaid_def
          order_stripe_def)
  have a1: "payment_status order_bank_paid = Some ''paid''"
    by (simp add: order_bank_paid_def order_bank_def order_stripe_def)
  have a2: "payment_events (trace (snd (processSingleOrder order_bank_paid world_bank_paid))) = []"
    using verifier_runs_iff_pending[of order_bank_paid world_bank_paid, THEN conjunct2,
        THEN conjunct1] a1
    by (simp add: world_bank_paid_def world_base_def payment_events_def)
  have a3: "verifier_runs (trace (snd (processSingleOrder order_stripe world_batch))) = 1"
    using verifier_runs_iff_pending[of order_stripe world_batch, THEN conjunct1]
    by (simp add: order_stripe_def world_batch_def world_base_def verifier_runs_def
          payment_events_def)
  have "processSingleOrder order_unpaid world_batch =
     (Inl (Error ''Payment not completed: requires_payment_method''),
      world_batch\<lparr>trace := [LogOrderStart ''N5'', CallRetrieve (Some ''pi_open''),
        LogPaymentFailed ''N5'' (Error ''Payment not completed: requires_payment_method'')]\<rparr>)"
    using verifier_runs_iff_pending[of order_unpaid world_batch, THEN conjunct2, THEN conjunct2]
      h unfolding p by simp
  with a1 a2 a3 show ?thesis by simp
qed

text \<open>
  C5 as stated fails for a status that is neither \<^verbatim>\<open>paid\<close> nor \<^verbatim>\<open>pending\<close>: an order whose
  \<^verbatim>\<open>payment_status\<close> is \<^verbatim>\<open>failed\<close> is not verified, and it is completed.
\<close>

theorem verifier_skipped_counterexample:
  "payment_status order_payment_failed = Some ''failed'' \<and>
   fst (processSingleOrder order_payment_failed world_payment_failed) = Inr () \<and>
   payment_events (trace (snd (processSingleOrder order_payment_failed world_payment_failed))) = [] \<and>
   map status (orders (snd (processSingleOrder order_payment_failed world_payment_failed))) =
     [''completed'']"
  by (simp add: processSingleOrder_def processSupplierOrders_def calculateProfit_def
        handleProfitTransfer_def transferToBankAccount_def Math_round_def io_defs Let_def
        payment_events_def world_payment_failed_def world_base_def order_payment_failed_def
        order_no_items_def order_stripe_def)

subsection \<open>C6: supplier dispatch stops at the first failing item\<close>



subsection \<open>C7: a payout failure does not fail the order\<close>



subsection \<open>C8: unsupported payment methods\<close>

text \<open>
  Claim C8, amended.  For an order whose payment is still \<^verbatim>\<open>pending\<close> and whose method is
  unsupported (not \<^verbatim>\<open>paypal\<close>, and not \<^verbatim>\<open>stripe\<close> with Stripe configured), with the
  database initialised: \<^verbatim>\<open>processSingleOrder\<close> throws \<^verbatim>\<open>Unsupported payment method\<close>
  and changes nothing but the console; when the store applies the handler's write, the
  order's row becomes \<^verbatim>\<open>failed\<close> with that message in \<^verbatim>\<open>error_message\<close>, no other row
  changes, no item is modified or dispatched and no transfer is recorded.
\<close>

theorem unsupported_payment_method_fails:
  assumes "db_ready w" and "payment_status order = Some ''pending''"
    and "payment_method order \<noteq> Some ''paypal''"
    and "\<not> (payment_method order = Some ''stripe'' \<and> stripe w)"
    and "store_fault w (tick w) = Applied"
  shows "processSingleOrder order w =
      (Inl (Error ''Unsupported payment method''),
       w\<lparr>trace := trace w @ [LogOrderStart (order_number order),
                 LogPaymentFailed (order_number order) (Error ''Unsupported payment method'')]\<rparr>) \<and>
    fst (processOrders_step order w) = Inr () \<and>
    orders (snd (processOrders_step order w)) =
      map (\<lambda>r. if order_id r = order_id order
               then r\<lparr>status := ''failed'',
                      error_message := Some ''Unsupported payment method'',
                      updated_at := date_now w (tick w)\<rparr>
               else r) (orders w) \<and>
    map order_items (orders (snd (processOrders_step order w))) = map order_items (orders w) \<and>
    dispatched_ids (trace (snd (processOrders_step order w))) = dispatched_ids (trace w) \<and>
    profit_transfers (snd (processOrders_step order w)) = profit_transfers w"
proof -
  have s: "processSingleOrder order w =
      (Inl (Error ''Unsupported payment method''),
       w\<lparr>trace := trace w @ [LogOrderStart (order_number order),
                 LogPaymentFailed (order_number order) (Error ''Unsupported payment method'')]\<rparr>)"
    using assms by (auto simp add: processSingleOrder_split processPayment_def io_defs)
  have m: "map order_items (map (\<lambda>r. if order_id r = order_id order
               then r\<lparr>status := ''failed'',
                      error_message := Some ''Unsupported payment method'',
                      updated_at := date_now w (tick w)\<rparr>
               else r) (orders w)) = map order_items (orders w)"
    by (induction "orders w") auto
  show ?thesis
    using s assms(5) m
    by (simp add: processOrders_step_def try_catch_def bind_def console_log_def now_def
          update_orders_def store_write_def)
qed

text \<open>The order paying by bank transfer, in the batch of three.\<close>

theorem unsupported_payment_method_fails_witness:
  "fst (processSingleOrder order_bank world_batch) = Inl (Error ''Unsupported payment method'') \<and>
   map status (orders (snd (processOrders_step order_bank world_batch))) =
     [''pending'', ''failed'', ''pending''] \<and>
   map error_message (orders (snd (processOrders_step order_bank world_batch))) =
     [None, Some ''Unsupported payment method'', None] \<and>
   map order_items (orders (snd (processOrders_step order_bank world_batch))) =
     map order_items (orders world_batch) \<and>
   dispatched_ids (trace (snd (processOrders_step order_bank world_batch))) = []"
proof -
  have h: "db_ready world_batch" "payment_status order_bank = Some ''pending''"
    "payment_method order_bank \<noteq> Some ''paypal''"
    "\<not> (payment_method order_bank = Some ''stripe'' \<and> stripe world_batch)"
    "store_fault world_batch (tick world_batch) = Applied"
    by (simp_all add: world_batch_def world_base_def order_bank_def order_stripe_def)
  have o: "orders world_batch = [order_paypal, order_bank, order_stripe]"
    "trace world_batch = []"
    by (simp_all add: world_batch_def world_base_def)
  show ?thesis
    using unsupported_payment_method_fails[OF h]
    by (simp add: o) (simp add: order_paypal_def order_bank_def order_stripe_def)
qed

text \<open>
  C8 as stated fails for an order that is already paid: the verifier is skipped, so an
  order paying by bank transfer is fulfilled, its item dispatched and its row completed.
\<close>

theorem unsupported_payment_method_paid_counterexample:
  "payment_method order_bank_paid = Some ''bank_transfer'' \<and>
   payment_status order_bank_paid = Some ''paid'' \<and>
   fst (processSingleOrder order_bank_paid world_bank_paid) = Inr () \<and>
   map status (orders (snd (processOrders_step order_bank_paid world_bank_paid))) =
     [''completed''] \<and>
   dispatched_ids (trace (snd (processOrders_step order_bank_paid world_bank_paid))) = [''i1'']"
  by (simp add: processOrders_step_def processSingleOrder_def processPayment_def
        processSupplierOrders_def createSupplierOrder_def getEstimatedDeliveryDate_def
        Date_setDate_plus_def
        generateSupplierOrderId_def toLowerCase_def deliveryDays_def calculateProfit_def
        margin_or_default_def handleProfitTransfer_def io_defs Let_def
        world_bank_paid_def world_base_def order_bank_paid_def order_bank_def order_stripe_def
        item_a_def)

subsection \<open>C9: the persisted profit is never negative\<close>



subsection \<open>C10: the batch trigger never throws\<close>

text \<open>
  Claim C10, amended.  \<^verbatim>\<open>processOrders\<close> returns normally in every world, whatever the
  store, the processor and the orders do: when the body of its outer \<^verbatim>\<open>try\<close> throws (also
  from the handler that marks an order failed), the error is logged and nothing is
  propagated.  The body of the loop catches every failure of \<^verbatim>\<open>processSingleOrder\<close>: it
  logs the error and writes \<^verbatim>\<open>failed\<close> and the error's message to the order's row.  When
  the store applies that write, the failure is persisted on that order and the loop goes
  on; when the write throws, the loop throws that error (which the outer \<^verbatim>\<open>catch\<close>
  logs); when the write is answered with an error result, the table is left as it was and
  the loop goes on.  The loop runs the orders one after the other and can only throw when a
  store call throws; with the database initialised and a store that answers the query, the
  body of the outer \<^verbatim>\<open>try\<close> is that loop over the batch, followed by the closing console
  line.
\<close>

theorem processOrders_returns_normally:
  "fst (processOrders w) = Inr () \<and>
   snd (processOrders w) =
     (case processOrders_try w of
        (Inl e, w1) \<Rightarrow> w1\<lparr>trace := trace w1 @ [LogBatchError e]\<rparr>
      | (Inr u, w1) \<Rightarrow> w1) \<and>
   ((\<forall>n e. store_fault w n \<noteq> Thrown e) \<longrightarrow> fst (processOrders_loop pending w) = Inr ()) \<and>
   processOrders_step order w =
     (case processSingleOrder order w of
        (Inr u, w1) \<Rightarrow> (Inr u, w1)
      | (Inl e, w1) \<Rightarrow>
          update_orders (order_id order)
            (\<lambda>r. r\<lparr>status := ''failed'', error_message := Some (message e),
                    updated_at := date_now w1 (tick w1)\<rparr>)
            (w1\<lparr>trace := trace w1 @ [LogOrderError (order_id order) e]\<rparr>)) \<and>
   (\<forall>e w1. processSingleOrder order w = (Inl e, w1) \<and> store_fault w1 (tick w1) = Applied \<longrightarrow>
      fst (processOrders_step order w) = Inr () \<and>
      orders (snd (processOrders_step order w)) =
        map (\<lambda>r. if order_id r = order_id order
                 then r\<lparr>status := ''failed'', error_message := Some (message e),
                        updated_at := date_now w1 (tick w1)\<rparr>
                 else r) (orders w1)) \<and>
   (\<forall>e w1 e'. processSingleOrder order w = (Inl e, w1) \<and>
        store_fault w1 (tick w1) = Thrown e' \<longrightarrow>
      fst (processOrders_step order w) = Inl e' \<and>
      orders (snd (processOrders_step order w)) = orders w1) \<and>
   (\<forall>e w1 e'. processSingleOrder order w = (Inl e, w1) \<and>
        store_fault w1 (tick w1) = Rejected e' \<longrightarrow>
      fst (processOrders_step order w) = Inr () \<and>
      orders (snd (processOrders_step order w)) = orders w1) \<and>
   processOrders_loop (order # rest) w =
     (case processOrders_step order w of
        (Inl e, w1) \<Rightarrow> (Inl e, w1)
      | (Inr u, w1) \<Rightarrow> processOrders_loop rest w1) \<and>
   (db_ready w \<and> store_fault w (tick w) = Applied \<longrightarrow>
      processOrders_try w =
        (case processOrders_loop (pending_batch w)
                (w\<lparr>tick := Suc (tick w),
                   trace := trace w @ [LogProcessing (length (pending_batch w))]\<rparr>) of
           (Inl e, w1) \<Rightarrow> (Inl e, w1)
         | (Inr u, w1) \<Rightarrow> (Inr (), w1\<lparr>trace := trace w1 @ [LogBatchCompleted]\<rparr>)))"
proof -
  have a: "fst (processOrders w) = Inr () \<and>
   snd (processOrders w) =
     (case processOrders_try w of
        (Inl e, w1) \<Rightarrow> w1\<lparr>trace := trace w1 @ [LogBatchError e]\<rparr>
      | (Inr u, w1) \<Rightarrow> w1)"
    by (simp add: processOrders_def try_catch_def console_log_def split: prod.splits sum.splits)
  have l: "processOrders_loop (order # rest) w =
     (case processOrders_step order w of
        (Inl e, w1) \<Rightarrow> (Inl e, w1)
      | (Inr u, w1) \<Rightarrow> processOrders_loop rest w1)"
    by (simp add: bind_def split: prod.splits sum.splits)
  have n: "(\<forall>n e. store_fault w n \<noteq> Thrown e) \<longrightarrow> fst (processOrders_loop pending w) = Inr ()"
    by (intro impI) (rule processOrders_loop_no_throw)
  have p: "\<forall>e w1. processSingleOrder order w = (Inl e, w1) \<and> store_fault w1 (tick w1) = Applied \<longrightarrow>
      fst (processOrders_step order w) = Inr () \<and>
      orders (snd (processOrders_step order w)) =
        map (\<lambda>r. if order_id r = order_id order
                 then r\<lparr>status := ''failed'', error_message := Some (message e),
                        updated_at := date_now w1 (tick w1)\<rparr>
                 else r) (orders w1)"
  proof (intro allI impI)
    fix e w1
    assume h: "processSingleOrder order w = (Inl e, w1) \<and> store_fault w1 (tick w1) = Applied"
    show "fst (processOrders_step order w) = Inr () \<and>
      orders (snd (processOrders_step order w)) =
        map (\<lambda>r. if order_id r = order_id order
                 then r\<lparr>status := ''failed'', error_message := Some (message e),
                        updated_at := date_now w1 (tick w1)\<rparr>
                 else r) (orders w1)"
      by (rule processOrders_step_persists[OF h[THEN conjunct1] h[THEN conjunct2]])
  qed
  have q: "\<forall>e w1 e'. processSingleOrder order w = (Inl e, w1) \<and>
        store_fault w1 (tick w1) = Thrown e' \<longrightarrow>
      fst (processOrders_step order w) = Inl e' \<and>
      orders (snd (processOrders_step order w)) = orders w1"
  proof (intro allI impI)
    fix e w1 e'
    assume h: "processSingleOrder order w = (Inl e, w1) \<and> store_fault w1 (tick w1) = Thrown e'"
    show "fst (processOrders_step order w) = Inl e' \<and>
      orders (snd (processOrders_step order w)) = orders w1"
      by (rule processOrders_step_mark_throws[OF h[THEN conjunct1] h[THEN conjunct2]])
  qed
  have r: "\<forall>e w1 e'. processSingleOrder order w = (Inl e, w1) \<and>
        store_fault w1 (tick w1) = Rejected e' \<longrightarrow>
      fst (processOrders_step order w) = Inr () \<and>
      orders (snd (processOrders_step order w)) = orders w1"
  proof (intro allI impI)
    fix e w1 e'
    assume h: "processSingleOrder order w = (Inl e, w1) \<and> store_fault w1 (tick w1) = Rejected e'"
    show "fst (processOrders_step order w) = Inr () \<and>
      orders (snd (processOrders_step order w)) = orders w1"
      by (rule processOrders_step_mark_rejected[OF h[THEN conjunct1] h[THEN conjunct2]])
  qed
  have u: "db_ready w \<and> store_fault w (tick w) = Applied \<longrightarrow>
      processOrders_try w =
        (case processOrders_loop (pending_batch w)
                (w\<lparr>tick := Suc (tick w),
                   trace := trace w @ [LogProcessing (length (pending_batch w))]\<rparr>) of
           (Inl e, w1) \<Rightarrow> (Inl e, w1)
         | (Inr u, w1) \<Rightarrow> (Inr (), w1\<lparr>trace := trace w1 @ [LogBatchCompleted]\<rparr>))"
    by (intro impI, elim conjE) (rule processOrders_try_unfold)
  show ?thesis
    by (intro conjI)
       (rule a[THEN conjunct1], rule a[THEN conjunct2], rule n, rule processOrders_step_unfold,
        rule p, rule q, rule r, rule l, rule u)
qed

text \<open>
  A store whose write of the failed mark throws: the error is logged at the top level and
  \<^verbatim>\<open>processOrders\<close> returns.  The batch of three on a store that applies every call: the
  loop returns, and the body of the loop for the order with the unsupported payment method
  marks that order failed with its message, and no other.
\<close>

theorem processOrders_returns_normally_witness:
  "fst (processOrders world_store_throws) = Inr () \<and>
   last (trace (snd (processOrders world_store_throws))) =
     LogBatchError (StoreError ''connection lost'') \<and>
   fst (processOrders_loop [order_stripe, order_bank, order_paypal] world_batch) = Inr () \<and>
   fst (processOrders_step order_bank world_batch) = Inr () \<and>
   map status (orders (snd (processOrders_step order_bank world_batch))) =
     [''pending'', ''failed'', ''pending''] \<and>
   map error_message (orders (snd (processOrders_step order_bank world_batch))) =
     [None, Some ''Unsupported payment method'', None]"
proof -
  have nt: "\<forall>n e. store_fault world_batch n \<noteq> Thrown e"
    by (simp add: world_batch_def world_base_def)
  have t: "\<exists>w1. processOrders_try world_store_throws = (Inl (StoreError ''connection lost''), w1)"
    by (simp add: run_defs pending_batch_def world_store_throws_def three_orders_defs)
  have s: "processSingleOrder order_bank world_batch =
      (Inl (Error ''Unsupported payment method''),
       world_batch\<lparr>trace := [LogOrderStart ''N2'',
          LogPaymentFailed ''N2'' (Error ''Unsupported payment method'')]\<rparr>)"
    by (simp add: processSingleOrder_def processPayment_def io_defs world_batch_def
          world_base_def order_bank_def order_stripe_def)
  have f: "store_fault (world_batch\<lparr>trace := [LogOrderStart ''N2'',
          LogPaymentFailed ''N2'' (Error ''Unsupported payment method'')]\<rparr>)
        (tick (world_batch\<lparr>trace := [LogOrderStart ''N2'',
          LogPaymentFailed ''N2'' (Error ''Unsupported payment method'')]\<rparr>)) = Applied"
    by (simp add: world_batch_def world_base_def)
  have o: "orders world_batch = [order_paypal, order_bank, order_stripe]"
    by (simp add: world_batch_def world_base_def)
  from t obtain w1 where t1: "processOrders_try world_store_throws =
      (Inl (StoreError ''connection lost''), w1)" by blast
  have "fst (processOrders world_store_throws) = Inr () \<and>
     last (trace (snd (processOrders world_store_throws))) =
       LogBatchError (StoreError ''connection lost'')"
    using processOrders_returns_normally[of world_store_throws "[]" order_bank "[]",
        THEN conjunct1]
      processOrders_returns_normally[of world_store_throws "[]" order_bank "[]",
        THEN conjunct2, THEN conjunct1]
    unfolding t1 by simp
  moreover have "fst (processOrders_loop [order_stripe, order_bank, order_paypal] world_batch) = Inr ()"
    using processOrders_returns_normally[of world_batch "[order_stripe, order_bank, order_paypal]"
        order_bank "[]", THEN conjunct2, THEN conjunct2, THEN conjunct1] nt
    by blast
  moreover have "fst (processOrders_step order_bank world_batch) = Inr () \<and>
     orders (snd (processOrders_step order_bank world_batch)) =
        map (\<lambda>r. if order_id r = order_id order_bank
                 then r\<lparr>status := ''failed'',
                        error_message := Some (message (Error ''Unsupported payment method'')),
                        updated_at := date_now
                          (world_batch\<lparr>trace := [LogOrderStart ''N2'',
                             LogPaymentFailed ''N2'' (Error ''Unsupported payment method'')]\<rparr>)
                          (tick (world_batch\<lparr>trace := [LogOrderStart ''N2'',
                             LogPaymentFailed ''N2'' (Error ''Unsupported payment method'')]\<rparr>))\<rparr>
                 else r)
          (orders (world_batch\<lparr>trace := [LogOrderStart ''N2'',
                             LogPaymentFailed ''N2'' (Error ''Unsupported payment method'')]\<rparr>))"
    by (rule processOrders_returns_normally[of world_batch "[]" order_bank "[]",
          THEN conjunct2, THEN conjunct2, THEN conjunct2, THEN conjunct2, THEN conjunct1,
          rule_format, OF conjI[OF s f]])
  ultimately show ?thesis
    by (simp add: o) (simp add: order_paypal_def order_bank_def order_stripe_def)
qed

text \<open>
  C10 as stated fails where it says that a failure of an order is persisted on that order
  and that any remaining failure is logged at the top level.  When the store answers the
  write of the failed mark with an error result, the handler does not look at the result:
  the order with the unsupported payment method stays \<^verbatim>\<open>pending\<close> with no
  \<^verbatim>\<open>error_message\<close>, and the run ends with the closing console line, no error having been
  logged at the top level.
\<close>

theorem marking_failure_dropped_counterexample:
  "fst (processSingleOrder order_second world_mark_rejected) =
     Inl (Error ''Unsupported payment method'') \<and>
   processOrders world_mark_rejected =
     (Inr (), world_mark_rejected\<lparr>tick := 2,
        trace := [LogProcessing 1, LogOrderStart ''A2'',
          LogPaymentFailed ''A2'' (Error ''Unsupported payment method''),
          LogOrderError ''a2'' (Error ''Unsupported payment method''),
          LogBatchCompleted]\<rparr>) \<and>
   map status (orders (snd (processOrders world_mark_rejected))) = [''pending''] \<and>
   map error_message (orders (snd (processOrders world_mark_rejected))) = [None]"
  by (simp add: pending_batch_def run_defs world_mark_rejected_def three_orders_defs)


end
